theory Spec2Isabelle
  imports Complex_Main "HOL-Library.Log_Nat"
begin

section \<open>Indicator engine (utils.py, calculate_technical_indicators)\<close>

text \<open>
  A price series is the frame handed over by the market-data provider: one row per trading
  session, in the provider's order. Prices are finite floating-point numbers; they are modelled
  as exact reals, so rounding, overflow and underflow of the 64-bit arithmetic are outside the
  model. A frame column that can hold the "no value" marker (NaN) is a list of
  \<open>real option\<close>, with \<open>None\<close> for NaN.
\<close>

record price_point =
  Open :: real
  High :: real
  Low :: real
  Close :: real
  Volume :: int

type_synonym price_series = "price_point list"

subsection \<open>Rolling windows\<close>

text \<open>
  \<open>Series.rolling(window=w)\<close> slides a window over the column: each new observation enters
  the window, and once the window holds more than \<open>w\<close> observations the oldest one leaves.
  \<open>min_periods\<close> is left at its default, the window size, so an aggregate is produced only
  when the window holds \<open>w\<close> observations and is NaN before.
\<close>

definition push :: "nat \<Rightarrow> 'a list \<Rightarrow> 'a \<Rightarrow> 'a list" where
  "push w win x = (let win1 = win @ [x] in if w < length win1 then tl win1 else win1)"

fun roll :: "nat \<Rightarrow> 'a list \<Rightarrow> 'a list \<Rightarrow> 'a list option list" where
  "roll w win [] = []"
| "roll w win (x # xs) =
     (let win2 = push w win x
      in (if w \<le> length win2 then Some win2 else None) # roll w win2 xs)"

definition rolling :: "nat \<Rightarrow> 'a list \<Rightarrow> 'a list option list" where
  "rolling w xs = roll w [] xs"

definition mean :: "real list \<Rightarrow> real" where
  "mean xs = sum_list xs / real (length xs)"

text \<open>
  \<open>Rolling.std(ddof)\<close>: the square root of the sum of squared deviations from the window's
  mean, divided by the number of observations minus \<open>ddof\<close>.
\<close>

definition std :: "nat \<Rightarrow> real list \<Rightarrow> real" where
  "std ddof xs =
     sqrt (sum_list (map (\<lambda>x. (x - mean xs)\<^sup>2) xs) / (real (length xs) - real ddof))"

definition rolling_mean :: "nat \<Rightarrow> real list \<Rightarrow> real option list" where
  "rolling_mean w xs = map (map_option mean) (rolling w xs)"

definition rolling_std :: "nat \<Rightarrow> nat \<Rightarrow> real list \<Rightarrow> real option list" where
  "rolling_std w ddof xs = map (map_option (std ddof)) (rolling w xs)"

subsection \<open>Column arithmetic\<close>

text \<open>Element-wise arithmetic of two columns; NaN in either operand gives NaN.\<close>

definition nan_lift2 :: "(real \<Rightarrow> real \<Rightarrow> real) \<Rightarrow> real option \<Rightarrow> real option \<Rightarrow> real option" where
  "nan_lift2 f a b = (case (a, b) of (Some x, Some y) \<Rightarrow> Some (f x y) | _ \<Rightarrow> None)"

definition col_add :: "real option list \<Rightarrow> real option list \<Rightarrow> real option list" where
  "col_add xs ys = map2 (nan_lift2 (+)) xs ys"

definition col_sub :: "real option list \<Rightarrow> real option list \<Rightarrow> real option list" where
  "col_sub xs ys = map2 (nan_lift2 (-)) xs ys"

definition col_scale :: "real option list \<Rightarrow> real \<Rightarrow> real option list" where
  "col_scale xs c = map (map_option (\<lambda>x. x * c)) xs"

subsection \<open>Floating-point values with infinities, for the RSI quotient\<close>

text \<open>
  The RSI divides by an average loss that can be zero, so its column needs the values a
  floating-point division by zero produces. \<open>Fin x\<close> is the finite number \<open>x\<close> (\<open>Fin 0\<close> is
  positive zero), \<open>NegZero\<close> is negative zero. The operations follow IEEE 754 on these
  values, with exact arithmetic on the finite ones.
\<close>

datatype fl = Fin real | NegZero | PInf | NInf | NaN

fun of_opt :: "real option \<Rightarrow> fl" where
  "of_opt None = NaN"
| "of_opt (Some x) = Fin x"

fun is_inf :: "fl \<Rightarrow> bool" where
  "is_inf PInf = True"
| "is_inf NInf = True"
| "is_inf _ = False"

fun is_zero :: "fl \<Rightarrow> bool" where
  "is_zero (Fin x) = (x = 0)"
| "is_zero NegZero = True"
| "is_zero _ = False"

text \<open>The sign bit: \<open>True\<close> for a negative value.\<close>

fun sign_bit :: "fl \<Rightarrow> bool" where
  "sign_bit (Fin x) = (x < 0)"
| "sign_bit NegZero = True"
| "sign_bit NInf = True"
| "sign_bit _ = False"

fun fin_val :: "fl \<Rightarrow> real" where
  "fin_val (Fin x) = x"
| "fin_val _ = 0"

definition inf_of :: "bool \<Rightarrow> fl" where
  "inf_of neg = (if neg then NInf else PInf)"

definition zero_of :: "bool \<Rightarrow> fl" where
  "zero_of neg = (if neg then NegZero else Fin 0)"

fun fneg :: "fl \<Rightarrow> fl" where
  "fneg (Fin x) = (if x = 0 then NegZero else Fin (- x))"
| "fneg NegZero = Fin 0"
| "fneg PInf = NInf"
| "fneg NInf = PInf"
| "fneg NaN = NaN"

fun fadd :: "fl \<Rightarrow> fl \<Rightarrow> fl" where
  "fadd NaN _ = NaN"
| "fadd _ NaN = NaN"
| "fadd PInf NInf = NaN"
| "fadd NInf PInf = NaN"
| "fadd PInf _ = PInf"
| "fadd _ PInf = PInf"
| "fadd NInf _ = NInf"
| "fadd _ NInf = NInf"
| "fadd NegZero NegZero = NegZero"
| "fadd NegZero (Fin y) = Fin y"
| "fadd (Fin x) NegZero = Fin x"
| "fadd (Fin x) (Fin y) = Fin (x + y)"

definition fsub :: "fl \<Rightarrow> fl \<Rightarrow> fl" where
  "fsub a b = fadd a (fneg b)"

definition fdiv :: "fl \<Rightarrow> fl \<Rightarrow> fl" where
  "fdiv a b =
     (if a = NaN \<or> b = NaN then NaN
      else if is_inf a then (if is_inf b then NaN else inf_of (sign_bit a \<noteq> sign_bit b))
      else if is_inf b then zero_of (sign_bit a \<noteq> sign_bit b)
      else if is_zero b then (if is_zero a then NaN else inf_of (sign_bit a \<noteq> sign_bit b))
      else if is_zero a then zero_of (sign_bit a \<noteq> sign_bit b)
      else Fin (fin_val a / fin_val b))"

subsection \<open>RSI inputs\<close>

text \<open>\<open>Series.diff()\<close>: the first row has no predecessor and is NaN.\<close>

definition diff :: "real list \<Rightarrow> real option list" where
  "diff xs = (case xs of [] \<Rightarrow> [] | _ # rest \<Rightarrow> None # map2 (\<lambda>p c. Some (c - p)) xs rest)"

text \<open>
  \<open>delta.where(delta > 0, 0)\<close> keeps a row where the comparison holds and puts 0 elsewhere;
  a comparison with NaN is false, so the NaN of the first row becomes 0.
\<close>

definition where_pos :: "real option list \<Rightarrow> real list" where
  "where_pos ds = map (\<lambda>d. case d of Some v \<Rightarrow> (if v > 0 then v else 0) | None \<Rightarrow> 0) ds"

definition where_neg :: "real option list \<Rightarrow> real list" where
  "where_neg ds = map (\<lambda>d. case d of Some v \<Rightarrow> (if v < 0 then v else 0) | None \<Rightarrow> 0) ds"

definition avg_gain :: "real list \<Rightarrow> fl list" where
  "avg_gain closes = map of_opt (rolling_mean 14 (where_pos (diff closes)))"

text \<open>The unary minus applies to the rolling mean of the non-positive changes.\<close>

definition avg_loss :: "real list \<Rightarrow> fl list" where
  "avg_loss closes = map (fneg \<circ> of_opt) (rolling_mean 14 (where_neg (diff closes)))"

definition rsi_of_rs :: "fl \<Rightarrow> fl" where
  "rsi_of_rs rs = fsub (Fin 100) (fdiv (Fin 100) (fadd (Fin 1) rs))"

definition rsi :: "real list \<Rightarrow> fl list" where
  "rsi closes = map rsi_of_rs (map2 fdiv (avg_gain closes) (avg_loss closes))"

subsection \<open>Exponentially weighted means\<close>

text \<open>
  \<open>Series.ewm(span=s, adjust=False).mean()\<close>: the first output is the first observation,
  and each later output is \<open>(1 - \<alpha>) * previous + \<alpha> * observation\<close> with
  \<open>\<alpha> = 2 / (s + 1)\<close>.
\<close>

fun ewm_from :: "real \<Rightarrow> real \<Rightarrow> real list \<Rightarrow> real list" where
  "ewm_from \<alpha> prev [] = []"
| "ewm_from \<alpha> prev (x # xs) =
     (let y = (1 - \<alpha>) * prev + \<alpha> * x in y # ewm_from \<alpha> y xs)"

definition ewm_mean :: "nat \<Rightarrow> real list \<Rightarrow> real list" where
  "ewm_mean spn xs =
     (case xs of [] \<Rightarrow> [] | x # rest \<Rightarrow> x # ewm_from (2 / (real spn + 1)) x rest)"

subsection \<open>The indicator frame\<close>

text \<open>
  The result frame: the input rows and one column per derived indicator. The columns
  \<open>20MA\<close> and \<open>20STD\<close> of the source are \<open>MA_20\<close> and \<open>STD_20\<close> here.
\<close>

record indicators =
  rows :: price_series
  MA20 :: "real option list"
  MA50 :: "real option list"
  MA200 :: "real option list"
  MA_20 :: "real option list"
  STD_20 :: "real option list"
  Upper_Band :: "real option list"
  Lower_Band :: "real option list"
  RSI :: "fl list"
  MACD :: "real list"
  Signal_Line :: "real list"
  MACD_Histogram :: "real list"
  Volume_EMA :: "real list"

text \<open>
  The argument is \<open>None\<close> for Python's \<open>None\<close>; \<open>data.empty\<close> is a frame without rows.
  \<open>Rolling.std()\<close> is called without arguments, so \<open>ddof\<close> has the library's default 1.
\<close>

definition calculate_technical_indicators :: "price_series option \<Rightarrow> indicators option" where
  "calculate_technical_indicators data =
     (case data of
        None \<Rightarrow> None
      | Some df \<Rightarrow>
          if df = [] then None
          else
            let closes = map Close df;
                ma_20 = rolling_mean 20 closes;
                std_20 = rolling_std 20 1 closes;
                exp1 = ewm_mean 12 closes;
                exp2 = ewm_mean 26 closes;
                macd = map2 (-) exp1 exp2;
                signal = ewm_mean 9 macd
            in Some \<lparr> rows = df,
                      MA20 = rolling_mean 20 closes,
                      MA50 = rolling_mean 50 closes,
                      MA200 = rolling_mean 200 closes,
                      MA_20 = ma_20,
                      STD_20 = std_20,
                      Upper_Band = col_add ma_20 (col_scale std_20 2),
                      Lower_Band = col_sub ma_20 (col_scale std_20 2),
                      RSI = rsi closes,
                      MACD = macd,
                      Signal_Line = signal,
                      MACD_Histogram = map2 (-) macd signal,
                      Volume_EMA = ewm_mean 20 (map (real_of_int \<circ> Volume) df) \<rparr>)"

subsection \<open>Reference definitions, from the specification\<close>

text \<open>
  The naive mean of the \<open>w\<close> observations ending at index \<open>i\<close>, and the exponential
  moving average as the recurrence \<open>ema[0] = x[0]\<close>,
  \<open>ema[t] = \<alpha> * x[t] + (1 - \<alpha>) * ema[t - 1]\<close>.
\<close>

definition trailing_window :: "nat \<Rightarrow> real list \<Rightarrow> nat \<Rightarrow> real list" where
  "trailing_window w xs i = map ((!) xs) [Suc i - w ..< Suc i]"

definition trailing_mean :: "nat \<Rightarrow> real list \<Rightarrow> nat \<Rightarrow> real" where
  "trailing_mean w xs i = sum_list (trailing_window w xs i) / real w"

fun ema_spec :: "real \<Rightarrow> real list \<Rightarrow> nat \<Rightarrow> real" where
  "ema_spec \<alpha> x 0 = x ! 0"
| "ema_spec \<alpha> x (Suc t) = \<alpha> * x ! Suc t + (1 - \<alpha>) * ema_spec \<alpha> x t"

subsection \<open>Example frames\<close>

text \<open>A frame whose rows all have the given closes, for evaluating the engine.\<close>

definition frame_of_closes :: "real list \<Rightarrow> price_series" where
  "frame_of_closes cs =
     map (\<lambda>c. \<lparr>Open = c, High = c, Low = c, Close = c, Volume = 1000\<rparr>) cs"

text \<open>
  Twenty closes with mean 100 and squared deviations summing to 76: the sample variance
  is 76 / 19 = 4, the population variance 76 / 20.
\<close>

definition band_closes :: "real list" where
  "band_closes = [106, 94, 101, 99, 101, 99, 100, 100, 100, 100,
                  100, 100, 100, 100, 100, 100, 100, 100, 100, 100]"

text \<open>Fourteen closes that rise by one each session: every change is a gain.\<close>

definition rising_closes :: "real list" where
  "rising_closes = [1, 2, 3, 4, 5, 6, 7, 8, 9, 10, 11, 12, 13, 14]"

section \<open>Summary formatter (utils.py, format_large_number and get_financial_summary)\<close>

text \<open>
  The values of the provider's fundamentals record that the formatter tells apart: None, an
  int (unbounded), a float and a string. A float is a value of type \<open>fl\<close>; in this section
  every arithmetic result is rounded to the nearest 64-bit binary floating-point number, as
  the interpreter does.
\<close>

datatype pyval = PNone | PInt int | PFloat fl | PStr string

datatype py_error = TypeError | OverflowError | ZeroDivisionError

subsection \<open>Rounding to a 64-bit float\<close>

text \<open>
  \<open>ilog2 x\<close> is the exponent of the highest power of two not above a positive \<open>x\<close>.
\<close>

definition ilog2 :: "real \<Rightarrow> int" where
  "ilog2 x = (if 1 \<le> x then bitlen \<lfloor>x\<rfloor> - 1 else - bitlen (\<lceil>1 / x\<rceil> - 1))"

definition round_half_even :: "real \<Rightarrow> int" where
  "round_half_even q =
     (let f = \<lfloor>q\<rfloor>; d = q - of_int f
      in if d < 1 / 2 then f else if d > 1 / 2 then f + 1 else if even f then f else f + 1)"

text \<open>
  The nearest float, ties to even: a significand of 53 bits, the exponent of the last bit
  not below -1074 (subnormal numbers), and an infinity from \<open>2 ^ 1024\<close> on.
\<close>

definition to_double :: "real \<Rightarrow> fl" where
  "to_double x =
     (if x = 0 then Fin 0
      else
        let e = max (ilog2 \<bar>x\<bar> - 52) (- 1074);
            m = round_half_even (\<bar>x\<bar> / 2 powi e);
            y = of_int m * 2 powi e
        in if 2 ^ 1024 \<le> y then inf_of (x < 0)
           else if m = 0 then zero_of (x < 0)
           else Fin (if x < 0 then - y else y))"

fun round_fl :: "fl \<Rightarrow> fl" where
  "round_fl (Fin x) = to_double x"
| "round_fl f = f"

text \<open>The exact product of two floats, before rounding.\<close>

definition fmul :: "fl \<Rightarrow> fl \<Rightarrow> fl" where
  "fmul a b =
     (if a = NaN \<or> b = NaN then NaN
      else if is_inf a \<or> is_inf b
        then (if is_zero a \<or> is_zero b then NaN else inf_of (sign_bit a \<noteq> sign_bit b))
      else if is_zero a \<or> is_zero b then zero_of (sign_bit a \<noteq> sign_bit b)
      else Fin (fin_val a * fin_val b))"

subsection \<open>Numbers of the interpreter\<close>

fun is_number :: "pyval \<Rightarrow> bool" where
  "is_number (PInt n) = True"
| "is_number (PFloat f) = True"
| "is_number _ = False"

text \<open>\<open>float(n)\<close> for an int: the nearest float, OverflowError beyond the range.\<close>

definition float_of_int :: "int \<Rightarrow> py_error + fl" where
  "float_of_int n =
     (let f = to_double (real_of_int n) in if is_inf f then Inl OverflowError else Inr f)"

text \<open>
  The comparison \<open>num > k\<close> of a number with an int, which the interpreter decides on the
  exact values; a comparison with NaN is false.
\<close>

fun py_gt :: "pyval \<Rightarrow> int \<Rightarrow> bool" where
  "py_gt (PInt n) k = (n > k)"
| "py_gt (PFloat (Fin x)) k = (x > real_of_int k)"
| "py_gt (PFloat NegZero) k = (0 > k)"
| "py_gt (PFloat PInf) k = True"
| "py_gt (PFloat NInf) k = False"
| "py_gt (PFloat NaN) k = False"
| "py_gt _ k = False"

text \<open>
  The true division \<open>num / k\<close> of a number by an int. An int by an int is the correctly
  rounded quotient, OverflowError when it is beyond the range; for a float the int is
  converted first.
\<close>

fun truediv :: "pyval \<Rightarrow> int \<Rightarrow> py_error + fl" where
  "truediv (PInt n) k =
     (if k = 0 then Inl ZeroDivisionError
      else let f = to_double (real_of_int n / real_of_int k)
           in if is_inf f then Inl OverflowError else Inr f)"
| "truediv (PFloat f) k =
     (if k = 0 then Inl ZeroDivisionError
      else case float_of_int k of
             Inl e \<Rightarrow> Inl e
           | Inr kf \<Rightarrow> Inr (round_fl (fdiv f kf)))"
| "truediv _ k = Inl TypeError"

subsection \<open>Two-decimal formatting\<close>

text \<open>
  The format specification \<open>.2f\<close>: a minus sign for a negative number, the integer digits,
  a point and two decimals, rounded to the nearest hundredth of the float's exact value with
  ties to even; an infinity is \<open>inf\<close> and NaN is \<open>nan\<close>. An int is converted to a float
  first.
\<close>

definition digit_char :: "nat \<Rightarrow> char" where
  "digit_char n = ''0123456789'' ! (n mod 10)"

fun string_of_nat :: "nat \<Rightarrow> string" where
  "string_of_nat n =
     (if n < 10 then [digit_char n] else string_of_nat (n div 10) @ [digit_char (n mod 10)])"

definition fmt2 :: "real \<Rightarrow> string" where
  "fmt2 x =
     (let n = nat (round_half_even (\<bar>x\<bar> * 100))
      in (if x < 0 then ''-'' else '''') @ string_of_nat (n div 100) @ ''.''
         @ [digit_char (n div 10), digit_char n])"

fun fmt2f :: "fl \<Rightarrow> string" where
  "fmt2f (Fin x) = fmt2 x"
| "fmt2f NegZero = ''-0.00''"
| "fmt2f PInf = ''inf''"
| "fmt2f NInf = ''-inf''"
| "fmt2f NaN = ''nan''"

fun fmt2_num :: "pyval \<Rightarrow> py_error + string" where
  "fmt2_num (PInt n) = (case float_of_int n of Inl e \<Rightarrow> Inl e | Inr f \<Rightarrow> Inr (fmt2f f))"
| "fmt2_num (PFloat f) = Inr (fmt2f f)"
| "fmt2_num _ = Inl TypeError"

subsection \<open>format_large_number\<close>

text \<open>The chain of comparisons, written once in \<open>format_large_number\<close> and once in the
  loop of \<open>get_financial_summary\<close>.\<close>

definition format_large_number :: "pyval \<Rightarrow> py_error + string" where
  "format_large_number num =
     (if \<not> is_number num then Inr ''N/A''
      else if py_gt num 1000000000 then
        (case truediv num 1000000000 of
           Inl e \<Rightarrow> Inl e | Inr q \<Rightarrow> Inr (''$'' @ fmt2f q @ ''B''))
      else if py_gt num 1000000 then
        (case truediv num 1000000 of
           Inl e \<Rightarrow> Inl e | Inr q \<Rightarrow> Inr (''$'' @ fmt2f q @ ''M''))
      else if py_gt num 1000 then
        (case truediv num 1000 of
           Inl e \<Rightarrow> Inl e | Inr q \<Rightarrow> Inr (''$'' @ fmt2f q @ ''K''))
      else
        (case fmt2_num num of Inl e \<Rightarrow> Inl e | Inr s \<Rightarrow> Inr (''$'' @ s)))"

subsection \<open>get_financial_summary\<close>

text \<open>The fundamentals record is a dictionary with string keys.\<close>

type_synonym info = "string \<rightharpoonup> pyval"

definition dict_get :: "info \<Rightarrow> string \<Rightarrow> pyval \<Rightarrow> pyval" where
  "dict_get d k dflt = (case d k of None \<Rightarrow> dflt | Some v \<Rightarrow> v)"

text \<open>Truth of a value: zero of either sign is false, NaN and the infinities are true.\<close>

fun truthy :: "pyval \<Rightarrow> bool" where
  "truthy PNone = False"
| "truthy (PInt n) = (n \<noteq> 0)"
| "truthy (PFloat f) = (\<not> is_zero f)"
| "truthy (PStr s) = (s \<noteq> [])"

text \<open>
  The product \<open>v * k\<close> for an int \<open>k\<close>: ints multiply exactly, a float is multiplied by
  the converted int and the product rounded, a string is repeated, None raises.
\<close>

fun py_mul :: "pyval \<Rightarrow> int \<Rightarrow> py_error + pyval" where
  "py_mul PNone k = Inl TypeError"
| "py_mul (PInt n) k = Inr (PInt (n * k))"
| "py_mul (PFloat f) k =
     (case float_of_int k of
        Inl e \<Rightarrow> Inl e
      | Inr kf \<Rightarrow> Inr (PFloat (round_fl (fmul f kf))))"
| "py_mul (PStr s) k = Inr (PStr (concat (replicate (nat k) s)))"

definition ratio_keys :: "string list" where
  "ratio_keys = [''dividend_yield'', ''pe_ratio'', ''forward_pe'', ''peg_ratio'',
                 ''price_to_book'', ''beta'', ''enterprise_to_revenue'',
                 ''enterprise_to_ebitda'']"

text \<open>
  The body of the loop over the summary's items: what one entry is replaced by, or the
  exception its formatting raises.
\<close>

definition format_entry :: "string \<Rightarrow> pyval \<Rightarrow> py_error + pyval" where
  "format_entry key val =
     (if is_number val \<and> key \<notin> set ratio_keys then
        (if py_gt val 1000000000 then
           (case truediv val 1000000000 of
              Inl e \<Rightarrow> Inl e | Inr q \<Rightarrow> Inr (PStr (''$'' @ fmt2f q @ ''B'')))
         else if py_gt val 1000000 then
           (case truediv val 1000000 of
              Inl e \<Rightarrow> Inl e | Inr q \<Rightarrow> Inr (PStr (''$'' @ fmt2f q @ ''M'')))
         else if py_gt val 1000 then
           (case truediv val 1000 of
              Inl e \<Rightarrow> Inl e | Inr q \<Rightarrow> Inr (PStr (''$'' @ fmt2f q @ ''K'')))
         else
           (case fmt2_num val of Inl e \<Rightarrow> Inl e | Inr s \<Rightarrow> Inr (PStr (''$'' @ s))))
      else
        (case val of
           PFloat f \<Rightarrow> if key \<in> set ratio_keys then Inr (PStr (fmt2f f)) else Inr val
         | _ \<Rightarrow> Inr val))"

text \<open>The loop: the entries are formatted in order, and the first exception ends it.\<close>

fun format_items :: "(string \<times> pyval) list \<Rightarrow> py_error + (string \<times> pyval) list" where
  "format_items [] = Inr []"
| "format_items ((key, val) # rest) =
     (case format_entry key val of
        Inl e \<Rightarrow> Inl e
      | Inr val' \<Rightarrow>
          (case format_items rest of
             Inl e \<Rightarrow> Inl e
           | Inr rest' \<Rightarrow> Inr ((key, val') # rest')))"

text \<open>
  The conditional expression of the \<open>dividend_yield\<close> entry: the product is evaluated only
  when the raw value is truthy.
\<close>

definition dividend_yield_entry :: "info \<Rightarrow> py_error + pyval" where
  "dividend_yield_entry d =
     (if truthy (dict_get d ''dividendYield'' PNone)
      then py_mul (dict_get d ''dividendYield'' (PStr ''N/A'')) 100
      else Inr (PStr ''N/A''))"

text \<open>The summary dictionary before formatting, in the order of the source.\<close>

definition raw_summary :: "info \<Rightarrow> pyval \<Rightarrow> (string \<times> pyval) list" where
  "raw_summary d dy =
     [(''name'', dict_get d ''shortName'' (PStr ''N/A'')),
      (''sector'', dict_get d ''sector'' (PStr ''N/A'')),
      (''industry'', dict_get d ''industry'' (PStr ''N/A'')),
      (''market_cap'', dict_get d ''marketCap'' (PStr ''N/A'')),
      (''current_price'',
         dict_get d ''currentPrice'' (dict_get d ''regularMarketPrice'' (PStr ''N/A''))),
      (''open'', dict_get d ''open'' (PStr ''N/A'')),
      (''high'', dict_get d ''dayHigh'' (PStr ''N/A'')),
      (''low'', dict_get d ''dayLow'' (PStr ''N/A'')),
      (''previous_close'', dict_get d ''previousClose'' (PStr ''N/A'')),
      (''volume'', dict_get d ''volume'' (PStr ''N/A'')),
      (''avg_volume'', dict_get d ''averageVolume'' (PStr ''N/A'')),
      (''52w_high'', dict_get d ''fiftyTwoWeekHigh'' (PStr ''N/A'')),
      (''52w_low'', dict_get d ''fiftyTwoWeekLow'' (PStr ''N/A'')),
      (''pe_ratio'', dict_get d ''trailingPE'' PNone),
      (''forward_pe'', dict_get d ''forwardPE'' PNone),
      (''peg_ratio'', dict_get d ''pegRatio'' PNone),
      (''price_to_book'', dict_get d ''priceToBook'' PNone),
      (''enterprise_value'', dict_get d ''enterpriseValue'' PNone),
      (''enterprise_to_revenue'', dict_get d ''enterpriseToRevenue'' PNone),
      (''enterprise_to_ebitda'', dict_get d ''enterpriseToEbitda'' PNone),
      (''beta'', dict_get d ''beta'' (PStr ''N/A'')),
      (''dividend_rate'', dict_get d ''dividendRate'' (PStr ''N/A'')),
      (''dividend_yield'', dy),
      (''target_mean_price'', dict_get d ''targetMeanPrice'' (PStr ''N/A'')),
      (''recommendation'', dict_get d ''recommendationKey'' (PStr ''N/A'')),
      (''esg_score'', dict_get d ''esgScore'' (PStr ''N/A''))]"

text \<open>
  The argument is what \<open>get_stock_info\<close> returned: \<open>None\<close> when the provider call failed.
  The result is \<open>Inl\<close> for a raised exception, \<open>Inr None\<close> for the early \<open>return None\<close>
  (no record, or an empty one) and \<open>Inr (Some summary)\<close> otherwise.
\<close>

definition get_financial_summary ::
  "info option \<Rightarrow> py_error + (string \<times> pyval) list option" where
  "get_financial_summary fetched =
     (case fetched of
        None \<Rightarrow> Inr None
      | Some d \<Rightarrow>
          if d = Map.empty then Inr None
          else
            (case dividend_yield_entry d of
               Inl e \<Rightarrow> Inl e
             | Inr dy \<Rightarrow>
                 (case format_items (raw_summary d dy) of
                    Inl e \<Rightarrow> Inl e
                  | Inr s \<Rightarrow> Inr (Some s))))"

text \<open>The entry of a returned summary under a key; \<open>None\<close> when no summary was returned.\<close>

definition summary_field ::
  "py_error + (string \<times> pyval) list option \<Rightarrow> string \<Rightarrow> pyval option" where
  "summary_field res key = (case res of Inr (Some s) \<Rightarrow> map_of s key | _ \<Rightarrow> None)"

text \<open>
  The summary fields that read one raw key with the default \<open>'N/A'\<close>, and the fields that
  read one raw key with the default \<open>None\<close>, each with its raw key.
\<close>

definition na_default_fields :: "(string \<times> string) list" where
  "na_default_fields =
     [(''name'', ''shortName''), (''sector'', ''sector''), (''industry'', ''industry''),
      (''market_cap'', ''marketCap''), (''open'', ''open''), (''high'', ''dayHigh''),
      (''low'', ''dayLow''), (''previous_close'', ''previousClose''), (''volume'', ''volume''),
      (''avg_volume'', ''averageVolume''), (''52w_high'', ''fiftyTwoWeekHigh''),
      (''52w_low'', ''fiftyTwoWeekLow''), (''beta'', ''beta''),
      (''dividend_rate'', ''dividendRate''), (''dividend_yield'', ''dividendYield''),
      (''target_mean_price'', ''targetMeanPrice''), (''recommendation'', ''recommendationKey''),
      (''esg_score'', ''esgScore'')]"

definition none_default_fields :: "(string \<times> string) list" where
  "none_default_fields =
     [(''pe_ratio'', ''trailingPE''), (''forward_pe'', ''forwardPE''),
      (''peg_ratio'', ''pegRatio''), (''price_to_book'', ''priceToBook''),
      (''enterprise_value'', ''enterpriseValue''),
      (''enterprise_to_revenue'', ''enterpriseToRevenue''),
      (''enterprise_to_ebitda'', ''enterpriseToEbitda'')]"

text \<open>A fundamentals record that has a name and a market capitalisation and no ratios.\<close>

definition sparse_info :: info where
  "sparse_info = [''shortName'' \<mapsto> PStr ''Apple Inc.'', ''marketCap'' \<mapsto> PInt 2500000000]"

section \<open>Favorites store (database.py)\<close>

text \<open>
  The three tables: users, stocks, and the association table \<open>favorites\<close> of
  (user id, stock id) rows, in insertion order. The symbol column of \<open>stocks\<close> is declared
  unique; the association table declares no constraint.
\<close>

record user =
  user_id :: nat
  username :: string
  email :: string
  password_hash :: string

record stock =
  stock_id :: nat
  symbol :: string
  name :: "string option"

record store =
  users :: "user list"
  stocks :: "stock list"
  favorites :: "(nat \<times> nat) list"

datatype db_error = ValueError

text \<open>\<open>session.query(User).filter_by(id=user_id).first()\<close> and the same for a stock's symbol.\<close>

definition find_user :: "store \<Rightarrow> nat \<Rightarrow> user option" where
  "find_user st u = find (\<lambda>x. user_id x = u) (users st)"

definition find_stock :: "store \<Rightarrow> string \<Rightarrow> stock option" where
  "find_stock st s = find (\<lambda>x. symbol x = s) (stocks st)"

text \<open>
  The relationship \<open>user.favorites\<close>: the stocks joined to the user's rows of the association
  table.
\<close>

definition user_favorites :: "store \<Rightarrow> nat \<Rightarrow> stock list" where
  "user_favorites st u =
     concat (map (\<lambda>(u', k). if u' = u then filter (\<lambda>x. stock_id x = k) (stocks st) else [])
                 (favorites st))"

text \<open>The primary key the database gives a new row: one more than the largest in use.\<close>

definition next_id :: "nat list \<Rightarrow> nat" where
  "next_id ids = Suc (fold max ids 0)"

text \<open>
  The first argument of the two mutating operations is what \<open>session.commit()\<close> does:
  \<open>None\<close> when it succeeds, \<open>Some e\<close> when it raises an exception with text \<open>e\<close>. A
  session closed without a commit, or rolled back, leaves the store as it was. The results
  are the pairs (success flag, message) of the source, next to the store afterwards.
\<close>

definition add_favorite_stock ::
  "string option \<Rightarrow> store \<Rightarrow> nat \<Rightarrow> string \<Rightarrow> string option \<Rightarrow> store \<times> bool \<times> string" where
  "add_favorite_stock commit st u s company_name =
     (case find_user st u of
        None \<Rightarrow> (st, False, ''User not found.'')
      | Some usr \<Rightarrow>
          let found = find_stock st s;
              stk = (case found of
                       None \<Rightarrow> \<lparr>stock_id = next_id (map stock_id (stocks st)),
                                 symbol = s, name = company_name\<rparr>
                     | Some x \<Rightarrow> x);
              stocks' = (case found of None \<Rightarrow> stocks st @ [stk] | Some x \<Rightarrow> stocks st)
          in if list_ex (\<lambda>fav. symbol fav = s) (user_favorites st u)
             then (st, False, s @ '' is already in your favorites.'')
             else
               (case commit of
                  None \<Rightarrow>
                    (st\<lparr>stocks := stocks', favorites := favorites st @ [(u, stock_id stk)]\<rparr>,
                     True, s @ '' added to favorites.'')
                | Some e \<Rightarrow> (st, False, ''An error occurred: '' @ e)))"

text \<open>
  \<open>user.favorites.remove(stock)\<close> is \<open>list.remove\<close>: it raises ValueError when the stock
  found by its symbol is not in the collection, and otherwise takes its first occurrence out,
  which deletes the row of the association table at the commit.
\<close>

definition remove_favorite_stock ::
  "string option \<Rightarrow> store \<Rightarrow> nat \<Rightarrow> string \<Rightarrow> db_error + store \<times> bool \<times> string" where
  "remove_favorite_stock commit st u s =
     (case find_user st u of
        None \<Rightarrow> Inr (st, False, ''User not found.'')
      | Some usr \<Rightarrow>
          (case find_stock st s of
             None \<Rightarrow> Inr (st, False, ''Stock '' @ s @ '' not found.'')
           | Some stk \<Rightarrow>
               if \<not> list_ex (\<lambda>fav. symbol fav = s) (user_favorites st u)
               then Inr (st, False, s @ '' is not in your favorites.'')
               else if stk \<notin> set (user_favorites st u) then Inl ValueError
               else
                 (case commit of
                    None \<Rightarrow>
                      Inr (st\<lparr>favorites := remove1 (u, stock_id stk) (favorites st)\<rparr>,
                           True, s @ '' removed from favorites.'')
                  | Some e \<Rightarrow> Inr (st, False, ''An error occurred: '' @ e))))"

definition get_user_favorites :: "store \<Rightarrow> nat \<Rightarrow> stock list" where
  "get_user_favorites st u =
     (case find_user st u of None \<Rightarrow> [] | Some usr \<Rightarrow> user_favorites st u)"

text \<open>
  The stores the schema and the operations allow: primary keys and symbols are unique, the
  rows of the association table refer to existing users and stocks (its foreign keys), and
  none of them is repeated.
\<close>

definition wf_store :: "store \<Rightarrow> bool" where
  "wf_store st \<longleftrightarrow>
     distinct (map user_id (users st)) \<and> distinct (map stock_id (stocks st))
     \<and> distinct (map symbol (stocks st)) \<and> distinct (favorites st)
     \<and> fst ` set (favorites st) \<subseteq> set (map user_id (users st))
     \<and> snd ` set (favorites st) \<subseteq> set (map stock_id (stocks st))"

text \<open>A store with one registered user and no stocks.\<close>

definition one_user_store :: store where
  "one_user_store =
     \<lparr>users = [\<lparr>user_id = 1, username = ''ada'', email = ''ada@example.org'',
                 password_hash = ''x''\<rparr>],
      stocks = [], favorites = []\<rparr>"

text \<open>The same store after the user has bookmarked AAPL.\<close>

definition aapl_store :: store where
  "aapl_store =
     one_user_store
       \<lparr>stocks := [\<lparr>stock_id = 1, symbol = ''AAPL'', name = Some ''Apple Inc.''\<rparr>],
        favorites := [(1, 1)]\<rparr>"

section \<open>Properties of the indicator engine\<close>

lemma length_roll: "length (roll w win xs) = length xs"
  by (induction xs arbitrary: win) (simp_all add: Let_def)

lemma length_rolling_mean: "length (rolling_mean w xs) = length xs"
  by (simp add: rolling_mean_def rolling_def length_roll)

subsection \<open>Rolling windows hold the trailing observations\<close>

lemma push_keep: "length win < w \<Longrightarrow> push w win x = win @ [x]"
  by (simp add: push_def)

lemma push_slide: "length win = w \<Longrightarrow> push w win x = tl (win @ [x])"
  by (simp add: push_def)

lemma length_push: "length win \<le> w \<Longrightarrow> length (push w win x) \<le> w"
  by (auto simp: push_def Let_def)

lemma roll_nth:
  "length win \<le> w \<Longrightarrow> j < length ys \<Longrightarrow>
   roll w win ys ! j =
     (let cur = drop (length win + Suc j - w) (win @ take (Suc j) ys)
      in if w \<le> length cur then Some cur else None)"
proof (induction ys arbitrary: win j)
  case Nil
  then show ?case by simp
next
  case (Cons x xs)
  show ?case
  proof (cases j)
    case 0
    show ?thesis
    proof (cases "length win < w")
      case True
      then show ?thesis using 0 by (simp add: Let_def push_keep)
    next
      case False
      then have lw: "length win = w" using Cons.prems by simp
      have "drop (Suc 0) (win @ [x]) = tl (win @ [x])" by (cases win) simp_all
      then show ?thesis using 0 lw by (simp add: Let_def push_slide del: tl_append2)
    qed
  next
    case (Suc k)
    have lp: "length (push w win x) \<le> w" using Cons.prems by (simp add: length_push)
    have k: "k < length xs" using Cons.prems Suc by simp
    have e: "drop (length (push w win x) + Suc k - w) (push w win x @ take (Suc k) xs)
      = drop (length win + Suc j - w) (win @ take (Suc j) (x # xs))"
    proof (cases "length win < w")
      case True
      then show ?thesis using Suc by (simp add: push_keep)
    next
      case False
      then have lw: "length win = w" using Cons.prems by simp
      have "tl (win @ [x]) @ take (Suc k) xs = tl (win @ x # take (Suc k) xs)"
        by (cases win) simp_all
      then have l: "drop (length (push w win x) + Suc k - w) (push w win x @ take (Suc k) xs)
           = drop (Suc k) (tl (win @ x # take (Suc k) xs))"
        using lw by (simp del: drop_Suc_Cons tl_append2 add: push_slide)
      have r: "drop (length win + Suc j - w) (win @ take (Suc j) (x # xs))
           = drop (Suc (Suc k)) (win @ x # take (Suc k) xs)"
        using lw Suc by simp
      show ?thesis unfolding l r by (simp only: drop_Suc[of "Suc k"])
    qed
    have "roll w win (x # xs) ! j = roll w (push w win x) xs ! k"
      using Suc by (simp add: Let_def)
    also have "\<dots> = (let cur = drop (length (push w win x) + Suc k - w) (push w win x @ take (Suc k) xs)
      in if w \<le> length cur then Some cur else None)"
      by (rule Cons.IH[OF lp k])
    finally show ?thesis by (simp only: e)
  qed
qed

lemma drop_take_nths: "n \<le> length xs \<Longrightarrow> drop m (take n xs) = map ((!) xs) [m..<n]"
  by (rule nth_equalityI) auto

lemma rolling_nth:
  assumes "i < length xs"
  shows "rolling w xs ! i = (if w \<le> Suc i then Some (map ((!) xs) [Suc i - w ..< Suc i]) else None)"
proof -
  have "rolling w xs ! i = (let cur = drop (Suc i - w) (take (Suc i) xs)
      in if w \<le> length cur then Some cur else None)"
    using roll_nth[of "[]" w i xs] assms by (simp add: rolling_def)
  moreover have "drop (Suc i - w) (take (Suc i) xs) = map ((!) xs) [Suc i - w ..< Suc i]"
    using assms by (simp add: drop_take_nths)
  moreover have "w \<le> length (map ((!) xs) [Suc i - w ..< Suc i]) \<longleftrightarrow> w \<le> Suc i"
    by auto
  ultimately show ?thesis by (simp add: Let_def)
qed

lemma rolling_mean_nth:
  assumes "i < length xs" "0 < w"
  shows "rolling_mean w xs ! i = (if i < w - 1 then None else Some (trailing_mean w xs i))"
proof -
  have l: "i < length (rolling w xs)" using assms by (simp add: rolling_def length_roll)
  have "w \<le> Suc i \<Longrightarrow> length (map ((!) xs) [Suc i - w ..< Suc i]) = w" by auto
  then show ?thesis using assms l
    by (auto simp: rolling_mean_def rolling_nth mean_def trailing_mean_def trailing_window_def)
qed

subsection \<open>Moving averages\<close>

lemma trailing_mean_replicate:
  assumes "w \<le> Suc i" "i < n" "0 < w"
  shows "trailing_mean w (replicate n c) i = c"
proof -
  have "trailing_window w (replicate n c) i = map (\<lambda>_. c) [Suc i - w ..< Suc i]"
    unfolding trailing_window_def using assms by (intro map_cong) auto
  moreover have "Suc i - (Suc i - w) = w" using assms by simp
  ultimately show ?thesis using assms by (simp add: trailing_mean_def sum_list_triv del: upt_Suc)
qed

text \<open>
  Claim C1. For a price series of at least 200 rows the frame is returned, and its columns
  MA20, MA50 and MA200 have one entry per row: the entry is the "no value" marker at every
  index below 19, 49 and 199 respectively, and from that index on it is the arithmetic mean
  of the 20, 50 and 200 closes ending at the index.
\<close>

theorem moving_averages_trailing_mean:
  assumes "200 \<le> length df"
  shows "\<exists>r. calculate_technical_indicators (Some df) = Some r
     \<and> length (MA20 r) = length df \<and> length (MA50 r) = length df
     \<and> length (MA200 r) = length df
     \<and> (\<forall>i < length df.
          MA20 r ! i = (if i < 19 then None else Some (trailing_mean 20 (map Close df) i))
        \<and> MA50 r ! i = (if i < 49 then None else Some (trailing_mean 50 (map Close df) i))
        \<and> MA200 r ! i = (if i < 199 then None else Some (trailing_mean 200 (map Close df) i)))"
proof -
  have ne: "df \<noteq> []" using assms by auto
  show ?thesis
    using ne by (simp add: calculate_technical_indicators_def Let_def length_rolling_mean rolling_mean_nth)
qed

theorem moving_averages_trailing_mean_witness:
  "\<exists>r. calculate_technical_indicators
         (Some (replicate 200 \<lparr>Open = 4, High = 6, Low = 3, Close = 5, Volume = 1000\<rparr>)) = Some r
     \<and> MA20 r ! 18 = None \<and> MA20 r ! 19 = Some 5
     \<and> MA50 r ! 48 = None \<and> MA50 r ! 49 = Some 5
     \<and> MA200 r ! 198 = None \<and> MA200 r ! 199 = Some 5"
proof -
  let ?df = "replicate 200 \<lparr>Open = 4, High = 6, Low = 3, Close = 5, Volume = 1000\<rparr>"
  have len: "200 \<le> length ?df" by simp
  from moving_averages_trailing_mean[OF len] obtain r where
    r: "calculate_technical_indicators (Some ?df) = Some r"
    and a: "\<forall>i < length ?df.
          MA20 r ! i = (if i < 19 then None else Some (trailing_mean 20 (map Close ?df) i))
        \<and> MA50 r ! i = (if i < 49 then None else Some (trailing_mean 50 (map Close ?df) i))
        \<and> MA200 r ! i = (if i < 199 then None else Some (trailing_mean 200 (map Close ?df) i))"
    by blast
  have "MA20 r ! 18 = None" "MA20 r ! 19 = Some 5" "MA50 r ! 48 = None" "MA50 r ! 49 = Some 5"
     "MA200 r ! 198 = None" "MA200 r ! 199 = Some 5"
    using a[rule_format, of 18] a[rule_format, of 19] a[rule_format, of 48] a[rule_format, of 49]
      a[rule_format, of 198] a[rule_format, of 199]
    by (simp_all add: trailing_mean_replicate)
  with r show ?thesis by blast
qed

subsection \<open>Bollinger bands\<close>

lemma length_rolling_std: "length (rolling_std w ddof xs) = length xs"
  by (simp add: rolling_std_def rolling_def length_roll)

lemma rolling_std_nth:
  assumes "i < length xs"
  shows "rolling_std w ddof xs ! i =
    (if w \<le> Suc i then Some (std ddof (trailing_window w xs i)) else None)"
proof -
  have l: "i < length (rolling w xs)" using assms by (simp add: rolling_def length_roll)
  show ?thesis using assms l
    by (simp add: rolling_std_def rolling_nth trailing_window_def)
qed

lemma bands_nth:
  assumes "19 \<le> i" "i < length df"
  shows "\<exists>r. calculate_technical_indicators (Some df) = Some r
     \<and> Upper_Band r ! i = Some (trailing_mean 20 (map Close df) i
                               + 2 * std 1 (trailing_window 20 (map Close df) i))
     \<and> Lower_Band r ! i = Some (trailing_mean 20 (map Close df) i
                               - 2 * std 1 (trailing_window 20 (map Close df) i))"
proof -
  have ne: "df \<noteq> []" using assms by auto
  show ?thesis using ne assms
    by (simp add: calculate_technical_indicators_def Let_def col_add_def col_sub_def col_scale_def
        length_rolling_mean length_rolling_std rolling_mean_nth rolling_std_nth nan_lift2_def)
qed

lemma trailing_window_whole: "xs \<noteq> [] \<Longrightarrow> trailing_window (length xs) xs (length xs - 1) = xs"
  by (simp add: trailing_window_def map_nth)

lemma len_band: "length band_closes = 20" by (simp add: band_closes_def)

lemma band_window: "trailing_window 20 band_closes 19 = band_closes"
proof -
  have "band_closes \<noteq> []" using len_band by auto
  then show ?thesis using trailing_window_whole[of band_closes] by (simp add: len_band)
qed

lemma band_mean: "mean band_closes = 100"
  by (simp add: mean_def band_closes_def)

lemma band_tmean: "trailing_mean 20 band_closes 19 = 100"
  using band_mean by (simp add: trailing_mean_def band_window mean_def len_band)

lemma band_sq: "sum_list (map (\<lambda>x. (x - 100)\<^sup>2) band_closes) = 76"
  by (simp add: band_closes_def)

lemma band_std1: "std (Suc 0) band_closes = 2"
  by (simp add: std_def band_mean band_sq len_band)

lemma band_std0: "std 0 band_closes \<noteq> 2"
proof
  assume "std 0 band_closes = 2"
  then have "sqrt (76 / 20) = 2" by (simp add: std_def band_mean band_sq len_band)
  then have "(sqrt (76 / 20))\<^sup>2 = 2\<^sup>2" by (simp only:)
  moreover have "(sqrt (76 / 20))\<^sup>2 = 76 / 20" by (rule real_sqrt_pow2) simp
  ultimately show False by simp
qed

lemma band_frame: "map Close (frame_of_closes cs) = cs"
  by (simp add: frame_of_closes_def comp_def)

text \<open>
  Claim C2, as the code has it. At every index from 19 on, Upper_Band and Lower_Band are the
  mean of the 20 closes ending at the index plus and minus twice their sample standard
  deviation (divisor 19, \<open>ddof = 1\<close>, the default of \<open>Rolling.std\<close>).
\<close>

theorem bollinger_bands_sample_std:
  assumes "19 \<le> i" "i < length df"
  shows "\<exists>r. calculate_technical_indicators (Some df) = Some r
     \<and> Upper_Band r ! i = Some (trailing_mean 20 (map Close df) i
                               + 2 * std 1 (trailing_window 20 (map Close df) i))
     \<and> Lower_Band r ! i = Some (trailing_mean 20 (map Close df) i
                               - 2 * std 1 (trailing_window 20 (map Close df) i))"
  using assms by (rule bands_nth)

theorem bollinger_bands_sample_std_witness:
  "\<exists>r. calculate_technical_indicators (Some (frame_of_closes band_closes)) = Some r
     \<and> Upper_Band r ! 19 = Some 104 \<and> Lower_Band r ! 19 = Some 96"
proof -
  have i: "(19::nat) \<le> 19" "19 < length (frame_of_closes band_closes)"
    by (simp_all add: frame_of_closes_def len_band)
  show ?thesis
    using bollinger_bands_sample_std[OF i]
    by (simp add: band_frame band_window band_tmean band_std1)
qed

text \<open>
  With the population standard deviation (divisor 20) the claim fails: on the example closes
  the upper band at index 19 is 104, while the population formula gives
  \<open>100 + 2 * sqrt (76 / 20)\<close>.
\<close>

theorem bollinger_bands_population_std_counterexample:
  "calculate_technical_indicators (Some (frame_of_closes band_closes)) \<noteq> None
   \<and> Upper_Band (the (calculate_technical_indicators (Some (frame_of_closes band_closes)))) ! 19
       = Some 104
   \<and> Some (104::real) \<noteq> Some (trailing_mean 20 (map Close (frame_of_closes band_closes)) 19
       + 2 * std 0 (trailing_window 20 (map Close (frame_of_closes band_closes)) 19))"
proof -
  have i: "(19::nat) \<le> 19" "19 < length (frame_of_closes band_closes)"
    by (simp_all add: frame_of_closes_def len_band)
  have "std 0 band_closes \<noteq> 2" by (rule band_std0)
  then show ?thesis
    using bands_nth[OF i]
    by (auto simp add: band_frame band_window band_tmean band_std1)
qed

subsection \<open>Exponential averages and MACD\<close>

lemma length_ewm_from: "length (ewm_from \<alpha> p xs) = length xs"
  by (induction xs arbitrary: p) (simp_all add: Let_def)

lemma length_ewm_mean: "length (ewm_mean spn xs) = length xs"
  by (cases xs) (simp_all add: ewm_mean_def length_ewm_from)

lemma ewm_from_0: "xs \<noteq> [] \<Longrightarrow> ewm_from \<alpha> p xs ! 0 = (1 - \<alpha>) * p + \<alpha> * xs ! 0"
  by (cases xs) (simp_all add: Let_def)

lemma ewm_from_Suc:
  "Suc i < length xs \<Longrightarrow>
   ewm_from \<alpha> p xs ! Suc i = (1 - \<alpha>) * ewm_from \<alpha> p xs ! i + \<alpha> * xs ! Suc i"
proof (induction xs arbitrary: p i)
  case Nil
  then show ?case by simp
next
  case (Cons x xs)
  show ?case
  proof (cases i)
    case 0
    then have "xs \<noteq> []" using Cons.prems by auto
    then show ?thesis using 0 by (simp add: Let_def ewm_from_0)
  next
    case (Suc k)
    then have "Suc k < length xs" using Cons.prems by simp
    from Cons.IH[OF this] show ?thesis using Suc by (simp add: Let_def)
  qed
qed

lemma ewm_mean_0: "xs \<noteq> [] \<Longrightarrow> ewm_mean spn xs ! 0 = xs ! 0"
  by (cases xs) (simp_all add: ewm_mean_def)

lemma ewm_mean_Suc:
  assumes "Suc i < length xs"
  shows "ewm_mean spn xs ! Suc i =
     2 / (real spn + 1) * xs ! Suc i + (1 - 2 / (real spn + 1)) * ewm_mean spn xs ! i"
proof (cases xs)
  case Nil
  then show ?thesis using assms by simp
next
  case (Cons x rest)
  show ?thesis
  proof (cases i)
    case 0
    then have "rest \<noteq> []" using assms Cons by auto
    then show ?thesis using 0 Cons by (simp add: ewm_mean_def ewm_from_0)
  next
    case (Suc k)
    then have "Suc k < length rest" using assms Cons by simp
    from ewm_from_Suc[OF this] show ?thesis using Suc Cons by (simp add: ewm_mean_def)
  qed
qed

lemma ewm_mean_ema_spec:
  "i < length xs \<Longrightarrow> ewm_mean spn xs ! i = ema_spec (2 / (real spn + 1)) xs i"
proof (induction i)
  case 0
  then show ?case by (simp add: ewm_mean_0)
next
  case (Suc i)
  then show ?case by (simp add: ewm_mean_Suc)
qed

text \<open>
  Claim C3. For a non-empty price series the frame is returned with one MACD, Signal_Line and
  MACD_Histogram entry per row; MACD is the 12-span exponential average of the closes minus
  the 26-span one, Signal_Line is the 9-span exponential average of MACD, each average
  following the recurrence seeded at the first value with \<open>\<alpha> = 2 / (span + 1)\<close>, and
  MACD_Histogram is MACD minus Signal_Line at every index.
\<close>

theorem macd_ema_recurrence:
  assumes "df \<noteq> []"
  shows "\<exists>r. calculate_technical_indicators (Some df) = Some r
     \<and> length (MACD r) = length df \<and> length (Signal_Line r) = length df
     \<and> length (MACD_Histogram r) = length df
     \<and> (\<forall>i < length df.
          MACD r ! i = ema_spec (2 / (12 + 1)) (map Close df) i
                       - ema_spec (2 / (26 + 1)) (map Close df) i
        \<and> Signal_Line r ! i = ema_spec (2 / (9 + 1)) (MACD r) i
        \<and> MACD_Histogram r ! i = MACD r ! i - Signal_Line r ! i)"
  using assms
  by (simp add: calculate_technical_indicators_def Let_def length_ewm_mean ewm_mean_ema_spec)

theorem macd_ema_recurrence_witness:
  "\<exists>r. calculate_technical_indicators (Some (frame_of_closes [351, 702])) = Some r
     \<and> MACD r ! 0 = 0 \<and> MACD r ! 1 = 28
     \<and> Signal_Line r ! 0 = 0 \<and> Signal_Line r ! 1 = 28 / 5
     \<and> MACD_Histogram r ! 1 = 112 / 5"
proof -
  have ne: "frame_of_closes [351, 702] \<noteq> []" by (simp add: frame_of_closes_def)
  from macd_ema_recurrence[OF ne] obtain r where
    r: "calculate_technical_indicators (Some (frame_of_closes [351, 702])) = Some r"
    and a: "\<forall>i < length (frame_of_closes [351, 702]).
          MACD r ! i = ema_spec (2 / (12 + 1)) (map Close (frame_of_closes [351, 702])) i
                       - ema_spec (2 / (26 + 1)) (map Close (frame_of_closes [351, 702])) i
        \<and> Signal_Line r ! i = ema_spec (2 / (9 + 1)) (MACD r) i
        \<and> MACD_Histogram r ! i = MACD r ! i - Signal_Line r ! i"
    by blast
  have m0: "MACD r ! 0 = 0" and m1: "MACD r ! 1 = 28"
    using a[rule_format, of 0] a[rule_format, of 1] by (simp_all add: frame_of_closes_def)
  have s0: "Signal_Line r ! 0 = 0" and s1: "Signal_Line r ! 1 = 28 / 5"
    using a[rule_format, of 0] a[rule_format, of 1] m0 m1 by (simp_all add: frame_of_closes_def)
  have h1: "MACD_Histogram r ! 1 = 112 / 5"
    using a[rule_format, of 1] m1 s1 by (simp add: frame_of_closes_def)
  from r m0 m1 s0 s1 h1 show ?thesis by blast
qed

subsection \<open>Relative strength index\<close>

lemma length_diff: "length (diff xs) = length xs"
  by (cases xs) (simp_all add: diff_def)

lemma where_pos_nonneg: "x \<in> set (where_pos ds) \<Longrightarrow> 0 \<le> x"
  by (auto simp: where_pos_def split: option.splits)

lemma where_neg_nonpos: "x \<in> set (where_neg ds) \<Longrightarrow> x \<le> 0"
  by (auto simp: where_neg_def split: option.splits)

lemma trailing_window_subset:
  "i < length xs \<Longrightarrow> set (trailing_window w xs i) \<subseteq> set xs"
  by (auto simp: trailing_window_def)

lemma trailing_mean_nonneg:
  assumes "i < length xs" "\<And>x. x \<in> set xs \<Longrightarrow> 0 \<le> x"
  shows "0 \<le> trailing_mean w xs i"
proof -
  have "0 \<le> sum_list (trailing_window w xs i)"
    using trailing_window_subset[OF assms(1), of w] assms(2) by (intro sum_list_nonneg) auto
  then show ?thesis by (simp add: trailing_mean_def)
qed

lemma trailing_mean_nonpos:
  assumes "i < length xs" "\<And>x. x \<in> set xs \<Longrightarrow> x \<le> 0"
  shows "trailing_mean w xs i \<le> 0"
proof -
  have "sum_list (trailing_window w xs i) \<le> 0"
    using trailing_window_subset[OF assms(1), of w] assms(2) by (intro sum_list_nonpos) auto
  then show ?thesis by (simp add: trailing_mean_def divide_nonpos_nonneg)
qed

lemma avg_gain_nth:
  assumes "i < length closes"
  shows "avg_gain closes ! i =
     (if i < 13 then NaN else Fin (trailing_mean 14 (where_pos (diff closes)) i))"
  using assms by (simp add: avg_gain_def length_rolling_mean rolling_mean_nth where_pos_def length_diff)

lemma avg_loss_nth:
  assumes "i < length closes"
  shows "avg_loss closes ! i =
     (if i < 13 then NaN else fneg (Fin (trailing_mean 14 (where_neg (diff closes)) i)))"
  using assms by (simp add: avg_loss_def length_rolling_mean rolling_mean_nth where_neg_def length_diff)

lemma rsi_of_rs_NInf: "rsi_of_rs NInf = Fin 100"
  by (simp add: rsi_of_rs_def fdiv_def fsub_def zero_of_def)

lemma rsi_of_rs_PInf: "rsi_of_rs PInf = Fin 100"
  by (simp add: rsi_of_rs_def fdiv_def fsub_def zero_of_def)

lemma rsi_of_rs_NaN: "rsi_of_rs NaN = NaN"
  by (simp add: rsi_of_rs_def fdiv_def fsub_def)

lemma rsi_of_rs_Fin:
  assumes "0 \<le> q"
  shows "rsi_of_rs (Fin q) = Fin (100 - 100 / (1 + q))"
  using assms by (simp add: rsi_of_rs_def fdiv_def fsub_def)

lemma rsi_value_bounds:
  assumes "0 \<le> (q::real)"
  shows "0 \<le> 100 - 100 / (1 + q)" "100 - 100 / (1 + q) \<le> 100"
proof -
  have "100 / (1 + q) \<le> 100 / 1" using assms by (intro divide_left_mono) auto
  then show "0 \<le> 100 - 100 / (1 + q)" by simp
  show "100 - 100 / (1 + q) \<le> 100" using assms by simp
qed

text \<open>The quotient of a non-negative average gain by the negated non-positive mean.\<close>

lemma rs_cases:
  assumes "0 \<le> g" "m \<le> 0"
  shows "fdiv (Fin g) (fneg (Fin m)) =
     (if m = 0 then (if g = 0 then NaN else NInf)
      else Fin (g / (- m)))"
  using assms by (auto simp: fdiv_def inf_of_def zero_of_def)

lemma length_avg_gain: "length (avg_gain closes) = length closes"
  by (simp add: avg_gain_def length_rolling_mean where_pos_def length_diff)

lemma length_avg_loss: "length (avg_loss closes) = length closes"
  by (simp add: avg_loss_def length_rolling_mean where_neg_def length_diff)

lemma rsi_nth:
  "i < length closes \<Longrightarrow>
   rsi closes ! i = rsi_of_rs (fdiv (avg_gain closes ! i) (avg_loss closes ! i))"
  by (simp add: rsi_def length_avg_gain length_avg_loss)

lemma rsi_point:
  assumes "i < length closes"
  shows "(rsi closes ! i = NaN \<or> (\<exists>v. rsi closes ! i = Fin v \<and> 0 \<le> v \<and> v \<le> 100))
     \<and> (rsi closes ! i \<noteq> NaN \<longleftrightarrow>
          (\<exists>l. avg_loss closes ! i = Fin l \<and> l \<noteq> 0)
          \<or> (is_zero (avg_loss closes ! i) \<and> (\<exists>g. avg_gain closes ! i = Fin g \<and> 0 < g)))
     \<and> (is_zero (avg_loss closes ! i) \<and> (\<exists>g. avg_gain closes ! i = Fin g \<and> 0 < g)
          \<longrightarrow> rsi closes ! i = Fin 100)"
proof (cases "i < 13")
  case True
  then have "avg_gain closes ! i = NaN" "avg_loss closes ! i = NaN"
    using assms by (simp_all add: avg_gain_nth avg_loss_nth)
  then show ?thesis using assms by (simp add: rsi_nth fdiv_def rsi_of_rs_NaN)
next
  case False
  define g where "g = trailing_mean 14 (where_pos (diff closes)) i"
  define m where "m = trailing_mean 14 (where_neg (diff closes)) i"
  have li: "i < length (where_pos (diff closes))" "i < length (where_neg (diff closes))"
    using assms by (simp_all add: where_pos_def where_neg_def length_diff)
  have g0: "0 \<le> g" unfolding g_def
    using li(1) where_pos_nonneg by (rule trailing_mean_nonneg)
  have m0: "m \<le> 0" unfolding m_def
    using li(2) where_neg_nonpos by (rule trailing_mean_nonpos)
  have ag: "avg_gain closes ! i = Fin g"
    using assms False by (simp add: avg_gain_nth g_def)
  have al: "avg_loss closes ! i = fneg (Fin m)"
    using assms False by (simp add: avg_loss_nth m_def)
  have r: "rsi closes ! i =
      rsi_of_rs (if m = 0 then (if g = 0 then NaN else NInf) else Fin (g / (- m)))"
    using assms rs_cases[OF g0 m0] by (simp only: rsi_nth ag al)
  have al': "avg_loss closes ! i = (if m = 0 then NegZero else Fin (- m))"
    using al by simp
  show ?thesis
  proof (cases "m = 0")
    case True
    show ?thesis
    proof (cases "g = 0")
      case True
      with \<open>m = 0\<close> show ?thesis using r ag al'
        by (simp add: rsi_of_rs_NaN)
    next
      case False
      with \<open>m = 0\<close> show ?thesis using r ag al' g0
        by (simp add: rsi_of_rs_NInf)
    qed
  next
    case False
    have q: "0 \<le> g / (- m)" using g0 m0 by (intro divide_nonneg_nonneg) simp_all
    have "rsi closes ! i = Fin (100 - 100 / (1 + g / (- m)))"
      using r False q by (simp add: rsi_of_rs_Fin)
    then show ?thesis using rsi_value_bounds[OF q] False al' by simp
  qed
qed

text \<open>
  Claim C4. At every index the RSI entry is either the "no value" marker or a number in the
  closed interval from 0 to 100. It is a number exactly when the 14-period average loss is
  a nonzero number, or is zero while the average gain is positive; in the latter case the
  RSI is 100.
\<close>

theorem rsi_within_bounds:
  assumes "i < length df"
  shows "\<exists>r. calculate_technical_indicators (Some df) = Some r \<and> length (RSI r) = length df
     \<and> (RSI r ! i = NaN \<or> (\<exists>v. RSI r ! i = Fin v \<and> 0 \<le> v \<and> v \<le> 100))
     \<and> (RSI r ! i \<noteq> NaN \<longleftrightarrow>
          (\<exists>l. avg_loss (map Close df) ! i = Fin l \<and> l \<noteq> 0)
          \<or> (is_zero (avg_loss (map Close df) ! i)
              \<and> (\<exists>g. avg_gain (map Close df) ! i = Fin g \<and> 0 < g)))
     \<and> (is_zero (avg_loss (map Close df) ! i)
          \<and> (\<exists>g. avg_gain (map Close df) ! i = Fin g \<and> 0 < g)
          \<longrightarrow> RSI r ! i = Fin 100)"
proof -
  have ne: "df \<noteq> []" using assms by auto
  have i: "i < length (map Close df)" using assms by simp
  have l: "length (rsi (map Close df)) = length df"
    by (simp add: rsi_def length_avg_gain length_avg_loss)
  show ?thesis
    using rsi_point[OF i] ne l by (simp add: calculate_technical_indicators_def Let_def)
qed

lemma len_rising: "length rising_closes = 14"
  by (simp add: rising_closes_def)

lemma rising_window:
  assumes "length xs = 14"
  shows "trailing_window 14 xs 13 = xs"
proof -
  have "xs \<noteq> []" using assms by auto
  from trailing_window_whole[OF this] show ?thesis by (simp add: assms)
qed

lemma rising_gain: "avg_gain rising_closes ! 13 = Fin (13 / 14)"
proof -
  have w: "where_pos (diff rising_closes) = [0, 1, 1, 1, 1, 1, 1, 1, 1, 1, 1, 1, 1, 1]"
    by (simp add: rising_closes_def diff_def where_pos_def)
  show ?thesis
    by (simp add: avg_gain_nth len_rising trailing_mean_def rising_window w)
qed

lemma rising_loss: "avg_loss rising_closes ! 13 = NegZero"
proof -
  have w: "where_neg (diff rising_closes) = [0, 0, 0, 0, 0, 0, 0, 0, 0, 0, 0, 0, 0, 0]"
    by (simp add: rising_closes_def diff_def where_neg_def)
  show ?thesis
    by (simp add: avg_loss_nth len_rising trailing_mean_def rising_window w)
qed

theorem rsi_within_bounds_witness:
  "\<exists>r. calculate_technical_indicators (Some (frame_of_closes rising_closes)) = Some r
     \<and> RSI r ! 13 = Fin 100"
proof -
  have i: "13 < length (frame_of_closes rising_closes)"
    by (simp add: frame_of_closes_def len_rising)
  have g: "\<exists>g. avg_gain (map Close (frame_of_closes rising_closes)) ! 13 = Fin g \<and> 0 < g"
    by (rule exI[of _ "13 / 14"]) (simp add: band_frame rising_gain)
  have z: "is_zero (avg_loss (map Close (frame_of_closes rising_closes)) ! 13)"
    by (simp add: band_frame rising_loss)
  from rsi_within_bounds[OF i] g z show ?thesis by blast
qed

subsection \<open>The engine returns on every frame\<close>

lemma length_col_add: "length (col_add xs ys) = min (length xs) (length ys)"
  by (simp add: col_add_def)

lemma length_col_sub: "length (col_sub xs ys) = min (length xs) (length ys)"
  by (simp add: col_sub_def)

lemma length_col_scale: "length (col_scale xs c) = length xs"
  by (simp add: col_scale_def)

lemma length_rsi: "length (rsi closes) = length closes"
  by (simp add: rsi_def length_avg_gain length_avg_loss)

lemma rsi_unfilled: "i < length closes \<Longrightarrow> i < 13 \<Longrightarrow> rsi closes ! i = NaN"
  by (simp add: rsi_nth avg_gain_nth avg_loss_nth fdiv_def rsi_of_rs_NaN)

lemma bands_unfilled:
  assumes "i < length xs" "i < 19"
  shows "col_add (rolling_mean 20 xs) (col_scale (rolling_std 20 d xs) 2) ! i = None"
    and "col_sub (rolling_mean 20 xs) (col_scale (rolling_std 20 d xs) 2) ! i = None"
  using assms
  by (simp_all add: col_add_def col_sub_def col_scale_def length_rolling_mean length_rolling_std
      rolling_mean_nth nan_lift2_def)

text \<open>
  Claim C5. Given no frame (None) or a frame without rows, the engine returns None. Given
  any frame with at least one row it returns a frame: every derived column has one entry per
  row, and each entry of a rolling column whose window is not yet full is the explicit
  "no value" marker.
\<close>

theorem indicators_total:
  "calculate_technical_indicators None = None
   \<and> calculate_technical_indicators (Some []) = None
   \<and> (df \<noteq> [] \<longrightarrow>
        (\<exists>r. calculate_technical_indicators (Some df) = Some r
           \<and> rows r = df
           \<and> length (MA20 r) = length df \<and> length (MA50 r) = length df
           \<and> length (MA200 r) = length df \<and> length (MA_20 r) = length df
           \<and> length (STD_20 r) = length df \<and> length (Upper_Band r) = length df
           \<and> length (Lower_Band r) = length df \<and> length (RSI r) = length df
           \<and> length (MACD r) = length df \<and> length (Signal_Line r) = length df
           \<and> length (MACD_Histogram r) = length df \<and> length (Volume_EMA r) = length df
           \<and> (\<forall>i < length df.
                (i < 19 \<longrightarrow> MA20 r ! i = None \<and> MA_20 r ! i = None \<and> STD_20 r ! i = None
                            \<and> Upper_Band r ! i = None \<and> Lower_Band r ! i = None)
              \<and> (i < 49 \<longrightarrow> MA50 r ! i = None)
              \<and> (i < 199 \<longrightarrow> MA200 r ! i = None)
              \<and> (i < 13 \<longrightarrow> RSI r ! i = NaN))))"
proof (intro conjI impI)
  show "calculate_technical_indicators None = None"
    by (simp add: calculate_technical_indicators_def)
  show "calculate_technical_indicators (Some []) = None"
    by (simp add: calculate_technical_indicators_def)
next
  assume ne: "df \<noteq> []"
  let ?r = "the (calculate_technical_indicators (Some df))"
  have r: "calculate_technical_indicators (Some df) = Some ?r"
    using ne by (simp add: calculate_technical_indicators_def Let_def)
  have lens: "rows ?r = df" "length (MA20 ?r) = length df" "length (MA50 ?r) = length df"
    "length (MA200 ?r) = length df" "length (MA_20 ?r) = length df"
    "length (STD_20 ?r) = length df" "length (Upper_Band ?r) = length df"
    "length (Lower_Band ?r) = length df" "length (RSI ?r) = length df"
    "length (MACD ?r) = length df" "length (Signal_Line ?r) = length df"
    "length (MACD_Histogram ?r) = length df" "length (Volume_EMA ?r) = length df"
    using ne
    by (simp_all add: calculate_technical_indicators_def Let_def length_rolling_mean
        length_rolling_std length_col_add length_col_sub length_col_scale length_rsi
        length_ewm_mean)
  have unfilled: "\<forall>i < length df.
                (i < 19 \<longrightarrow> MA20 ?r ! i = None \<and> MA_20 ?r ! i = None \<and> STD_20 ?r ! i = None
                            \<and> Upper_Band ?r ! i = None \<and> Lower_Band ?r ! i = None)
              \<and> (i < 49 \<longrightarrow> MA50 ?r ! i = None)
              \<and> (i < 199 \<longrightarrow> MA200 ?r ! i = None)
              \<and> (i < 13 \<longrightarrow> RSI ?r ! i = NaN)"
    using ne
    by (simp add: calculate_technical_indicators_def Let_def rolling_mean_nth rolling_std_nth
        bands_unfilled rsi_unfilled)
  from r lens unfilled
  show "\<exists>r. calculate_technical_indicators (Some df) = Some r
           \<and> rows r = df
           \<and> length (MA20 r) = length df \<and> length (MA50 r) = length df
           \<and> length (MA200 r) = length df \<and> length (MA_20 r) = length df
           \<and> length (STD_20 r) = length df \<and> length (Upper_Band r) = length df
           \<and> length (Lower_Band r) = length df \<and> length (RSI r) = length df
           \<and> length (MACD r) = length df \<and> length (Signal_Line r) = length df
           \<and> length (MACD_Histogram r) = length df \<and> length (Volume_EMA r) = length df
           \<and> (\<forall>i < length df.
                (i < 19 \<longrightarrow> MA20 r ! i = None \<and> MA_20 r ! i = None \<and> STD_20 r ! i = None
                            \<and> Upper_Band r ! i = None \<and> Lower_Band r ! i = None)
              \<and> (i < 49 \<longrightarrow> MA50 r ! i = None)
              \<and> (i < 199 \<longrightarrow> MA200 r ! i = None)
              \<and> (i < 13 \<longrightarrow> RSI r ! i = NaN))"
    by blast
qed

theorem indicators_total_witness:
  "\<exists>r. calculate_technical_indicators (Some (frame_of_closes [5])) = Some r
     \<and> length (MA20 r) = 1 \<and> MA20 r ! 0 = None \<and> MA50 r ! 0 = None \<and> MA200 r ! 0 = None
     \<and> Upper_Band r ! 0 = None \<and> Lower_Band r ! 0 = None \<and> RSI r ! 0 = NaN"
proof -
  have ne: "frame_of_closes [5] \<noteq> []" by (simp add: frame_of_closes_def)
  have l: "length (frame_of_closes [5]) = 1" by (simp add: frame_of_closes_def)
  from indicators_total[of "frame_of_closes [5]"] ne obtain r where
    r: "calculate_technical_indicators (Some (frame_of_closes [5])) = Some r"
    and len: "length (MA20 r) = length (frame_of_closes [5])"
    and u: "\<forall>i < length (frame_of_closes [5]).
                (i < 19 \<longrightarrow> MA20 r ! i = None \<and> MA_20 r ! i = None \<and> STD_20 r ! i = None
                            \<and> Upper_Band r ! i = None \<and> Lower_Band r ! i = None)
              \<and> (i < 49 \<longrightarrow> MA50 r ! i = None)
              \<and> (i < 199 \<longrightarrow> MA200 r ! i = None)
              \<and> (i < 13 \<longrightarrow> RSI r ! i = NaN)"
    by blast
  from u[rule_format, of 0] l len r show ?thesis by simp
qed

section \<open>Properties of the summary formatter\<close>

subsection \<open>Rounding to a 64-bit float\<close>

lemma bitlen_pos:
  assumes "0 < n"
  shows "1 \<le> bitlen n"
proof -
  have "bitlen n \<noteq> 0" using assms by (simp add: bitlen_eq_zero_iff)
  moreover have "0 \<le> bitlen n" by (rule bitlen_nonneg)
  ultimately show ?thesis by linarith
qed

lemma ilog2_bounds:
  assumes "0 < x"
  shows "2 powi (ilog2 x) \<le> x" "x < 2 powi (ilog2 x + 1)"
proof -
  have "2 powi (ilog2 x) \<le> x \<and> x < 2 powi (ilog2 x + 1)"
  proof (cases "1 \<le> x")
    case True
    define N where "N = \<lfloor>x\<rfloor>"
    have N: "0 < N" using True by (simp add: N_def)
    have b: "1 \<le> bitlen N" using N by (rule bitlen_pos)
    have i: "ilog2 x = bitlen N - 1" using True by (simp add: ilog2_def N_def)
    from bitlen_bounds[OF N] have lo: "2 ^ nat (bitlen N - 1) \<le> N" and hi: "N < 2 ^ nat (bitlen N)"
      by simp_all
    have "(2::real) powi (bitlen N - 1) = 2 ^ nat (bitlen N - 1)"
      using b by (simp add: power_int_def)
    also have "\<dots> = real_of_int (2 ^ nat (bitlen N - 1))" by simp
    also have "\<dots> \<le> real_of_int N" using lo by (simp only: of_int_le_iff)
    also have "\<dots> \<le> x" by (simp add: N_def)
    finally have l: "2 powi (ilog2 x) \<le> x" by (simp add: i)
    have "N + 1 \<le> 2 ^ nat (bitlen N)" using hi by simp
    then have "real_of_int (N + 1) \<le> real_of_int (2 ^ nat (bitlen N))" by (simp only: of_int_le_iff)
    moreover have "x < real_of_int (N + 1)" by (simp add: N_def)
    moreover have "(2::real) powi (bitlen N) = 2 ^ nat (bitlen N)"
      using b by (simp add: power_int_def)
    ultimately have "x < 2 powi (ilog2 x + 1)" by (simp add: i)
    with l show ?thesis by simp
  next
    case False
    define y where "y = 1 / x"
    define M where "M = \<lceil>y\<rceil> - 1"
    have y1: "1 < y" using False assms by (simp add: y_def)
    have M: "0 < M" using y1 unfolding M_def by linarith
    have My: "real_of_int M < y" "y \<le> real_of_int M + 1" unfolding M_def by linarith+
    have b: "1 \<le> bitlen M" using M by (rule bitlen_pos)
    have i: "ilog2 x = - bitlen M" using False by (simp add: ilog2_def M_def y_def)
    from bitlen_bounds[OF M] have lo: "2 ^ nat (bitlen M - 1) \<le> M" and hi: "M < 2 ^ nat (bitlen M)"
      by simp_all
    have "real_of_int (M + 1) \<le> real_of_int (2 ^ nat (bitlen M))"
      using hi by (simp only: of_int_le_iff)
    then have yh: "y \<le> 2 ^ nat (bitlen M)" using My by simp
    have "real_of_int (2 ^ nat (bitlen M - 1)) \<le> real_of_int M" using lo by (simp only: of_int_le_iff)
    then have "(2::real) ^ nat (bitlen M - 1) \<le> real_of_int M" by simp
    then have yl: "2 ^ nat (bitlen M - 1) < y" using My by linarith
    have x: "x = 1 / y" using assms by (simp add: y_def)
    have "(2::real) powi (- bitlen M) = 1 / 2 ^ nat (bitlen M)"
      using b by (simp add: power_int_def field_simps)
    also have "\<dots> \<le> 1 / y" using yh y1 by (intro divide_left_mono) simp_all
    finally have "2 powi (- bitlen M) \<le> 1 / y" .
    then have l: "2 powi (ilog2 x) \<le> x" unfolding i by (simp only: x [symmetric])
    have "1 / y < 1 / 2 ^ nat (bitlen M - 1)" using yl y1 by (intro divide_strict_left_mono) simp_all
    moreover have "(2::real) powi (- bitlen M + 1) = 1 / 2 ^ nat (bitlen M - 1)"
    proof -
      have "- bitlen M + 1 = - (bitlen M - 1)" by simp
      moreover have "(2::real) powi (- (bitlen M - 1)) = 1 / 2 ^ nat (bitlen M - 1)"
        using b by (simp add: power_int_def field_simps)
      ultimately show ?thesis by simp
    qed
    ultimately have "1 / y < 2 powi (- bitlen M + 1)" by simp
    then have "x < 2 powi (ilog2 x + 1)" unfolding i by (simp only: x [symmetric])
    with l show ?thesis by simp
  qed
  then show "2 powi (ilog2 x) \<le> x" "x < 2 powi (ilog2 x + 1)" by simp_all
qed

lemma pow2_less_cancel:
  assumes "(2::real) powi a < 2 powi b"
  shows "a < b"
proof (rule ccontr)
  assume "\<not> a < b"
  then have "b \<le> a" by simp
  then have "(2::real) powi b \<le> 2 powi a" by (intro power_int_increasing) simp_all
  with assms show False by simp
qed

lemma ilog2_eqI:
  assumes "0 < x" "2 powi k \<le> x" "x < 2 powi (k + 1)"
  shows "ilog2 x = k"
proof -
  from ilog2_bounds[OF assms(1)] assms(2,3)
  have a: "(2::real) powi (ilog2 x) < 2 powi (k + 1)"
    and b: "(2::real) powi k < 2 powi (ilog2 x + 1)"
    by simp_all
  have "ilog2 x < k + 1" using a by (rule pow2_less_cancel)
  moreover have "k < ilog2 x + 1" using b by (rule pow2_less_cancel)
  ultimately show ?thesis by simp
qed

lemma round_half_even_bounds:
  "\<lfloor>q\<rfloor> \<le> round_half_even q" "round_half_even q \<le> \<lfloor>q\<rfloor> + 1"
  by (simp_all add: round_half_even_def Let_def)

lemma round_half_even_nearest:
  "\<bar>q - of_int (round_half_even q)\<bar> \<le> 1 / 2"
  "\<bar>q - of_int (round_half_even q)\<bar> = 1 / 2 \<Longrightarrow> even (round_half_even q)"
proof -
  have f: "of_int \<lfloor>q\<rfloor> \<le> q" "q < of_int \<lfloor>q\<rfloor> + 1" by linarith+
  show "\<bar>q - of_int (round_half_even q)\<bar> \<le> 1 / 2"
    using f by (auto simp: round_half_even_def Let_def)
  show "even (round_half_even q)" if "\<bar>q - of_int (round_half_even q)\<bar> = 1 / 2"
    using that f by (auto simp: round_half_even_def Let_def split: if_splits)
qed

lemma pow2_pos: "0 < (2::real) powi e"
  by (simp add: power_int_def)

lemma to_double_finite:
  assumes "\<bar>x\<bar> < 2 ^ 1023"
  shows "\<not> is_inf (to_double x)"
proof (cases "x = 0")
  case True
  then show ?thesis by (simp add: to_double_def)
next
  case False
  define a where "a = \<bar>x\<bar>"
  define k where "k = ilog2 a"
  define e where "e = max (k - 52) (- 1074)"
  define q where "q = a / 2 powi e"
  define m where "m = round_half_even q"
  have a0: "0 < a" using False by (simp add: a_def)
  note b = ilog2_bounds[OF a0, folded k_def]
  have "(2::real) powi k < 2 powi 1023" using b(1) assms by (simp add: a_def)
  then have k: "k < 1023" by (rule pow2_less_cancel)
  have e1: "e \<le> 970" using k by (simp add: e_def)
  have e2: "k - 52 \<le> e" by (simp add: e_def)
  have "(2::real) powi (k - 52) \<le> 2 powi e" using e2 by (intro power_int_increasing) simp_all
  then have "q \<le> a / 2 powi (k - 52)"
    unfolding q_def using a0 pow2_pos[of "k - 52"] by (intro divide_left_mono) simp_all
  also have "\<dots> < 2 powi (k + 1) / 2 powi (k - 52)"
    using b(2) pow2_pos[of "k - 52"] by (simp add: divide_strict_right_mono)
  also have "\<dots> = 2 powi 53"
    by (simp add: power_int_diff [symmetric])
  finally have "q < 2 ^ 53" by simp
  then have "\<lfloor>q\<rfloor> < 2 ^ 53" by (simp add: floor_less_iff)
  then have m: "m \<le> 2 ^ 53" using round_half_even_bounds(2)[of q] unfolding m_def by linarith
  have "of_int m * 2 powi e \<le> (2 ^ 53 :: real) * 2 powi e"
    using m pow2_pos[of e] by (intro mult_right_mono) (simp_all add: of_int_le_numeral_power_cancel_iff)
  also have "\<dots> \<le> 2 ^ 53 * 2 powi 970"
    using e1 by (intro mult_left_mono power_int_increasing) simp_all
  also have "\<dots> < 2 ^ 1024" by simp
  finally have y: "\<not> (2::real) ^ 1024 \<le> of_int m * 2 powi e" by simp
  show ?thesis
    using False y
    by (simp add: to_double_def Let_def a_def [symmetric] k_def [symmetric] e_def [symmetric]
        q_def [symmetric] m_def [symmetric] zero_of_def)
qed

lemma to_double_overflow:
  assumes "2 ^ 1024 \<le> \<bar>x\<bar>"
  shows "to_double x = inf_of (x < 0)"
proof -
  define a where "a = \<bar>x\<bar>"
  define k where "k = ilog2 a"
  define e where "e = max (k - 52) (- 1074)"
  define q where "q = a / 2 powi e"
  define m where "m = round_half_even q"
  have a0: "0 < a" using assms by (simp add: a_def)
  have x0: "x \<noteq> 0" using a0 by (auto simp: a_def)
  note b = ilog2_bounds[OF a0, folded k_def]
  have "(2::real) powi 1024 < 2 powi (k + 1)" using b(2) assms by (simp add: a_def)
  then have "1024 < k + 1" by (rule pow2_less_cancel)
  then have k: "1024 \<le> k" by simp
  then have e: "e = k - 52" by (simp add: e_def)
  have "2 powi k / 2 powi e \<le> q"
    unfolding q_def using b(1) pow2_pos[of e] by (simp add: divide_right_mono)
  moreover have "(2::real) powi k / 2 powi e = 2 powi 52"
    by (simp add: e power_int_diff [symmetric])
  ultimately have "2 ^ 52 \<le> q" by simp
  then have "2 ^ 52 \<le> \<lfloor>q\<rfloor>" by (simp add: le_floor_iff)
  then have m: "2 ^ 52 \<le> m" using round_half_even_bounds(1)[of q] unfolding m_def by linarith
  have "(2::real) powi 1024 \<le> 2 powi k" using k by (intro power_int_increasing) simp_all
  also have "\<dots> = 2 ^ 52 * 2 powi e" by (simp add: e power_int_diff)
  also have "\<dots> \<le> of_int m * 2 powi e"
    using m pow2_pos[of e] by (intro mult_right_mono) (simp_all add: numeral_power_le_of_int_cancel_iff)
  finally have y: "(2::real) ^ 1024 \<le> of_int m * 2 powi e" by simp
  show ?thesis
    using x0 y
    by (simp add: to_double_def Let_def a_def [symmetric] k_def [symmetric] e_def [symmetric]
        q_def [symmetric] m_def [symmetric])
qed

lemma to_double_not_nan: "to_double x \<noteq> NaN"
  by (simp add: to_double_def Let_def inf_of_def zero_of_def)

subsection \<open>The divisors and the factor are floats\<close>

lemma ilog2_consts:
  "ilog2 100 = 6" "ilog2 1000 = 9" "ilog2 1000000 = 19" "ilog2 1000000000 = 29"
  by (rule ilog2_eqI; simp)+

lemma float_of_int_consts:
  "float_of_int 100 = Inr (Fin 100)" "float_of_int 1000 = Inr (Fin 1000)"
  "float_of_int 1000000 = Inr (Fin 1000000)" "float_of_int 1000000000 = Inr (Fin 1000000000)"
  by (simp_all add: float_of_int_def to_double_def ilog2_consts Let_def round_half_even_def)

lemma float_of_int_raise:
  assumes "float_of_int n = Inl e"
  shows "e = OverflowError \<and> 2 ^ 1023 \<le> \<bar>n\<bar>"
proof -
  have i: "is_inf (to_double (real_of_int n))" and e: "e = OverflowError"
    using assms by (auto simp: float_of_int_def Let_def split: if_splits)
  have "\<not> \<bar>real_of_int n\<bar> < 2 ^ 1023" using i to_double_finite by blast
  then have "(2::real) ^ 1023 \<le> real_of_int \<bar>n\<bar>" by simp
  then have "2 ^ 1023 \<le> \<bar>n\<bar>" by (simp only: numeral_power_le_of_int_cancel_iff)
  with e show ?thesis by simp
qed

lemma truediv_int_raise:
  assumes "truediv (PInt n) k = Inl e" "k \<noteq> 0"
  shows "e = OverflowError \<and> 2 ^ 1023 \<le> \<bar>n\<bar>"
proof -
  have i: "is_inf (to_double (real_of_int n / real_of_int k))" and e: "e = OverflowError"
    using assms by (auto simp: Let_def split: if_splits)
  have "\<not> \<bar>real_of_int n / real_of_int k\<bar> < 2 ^ 1023" using i to_double_finite by blast
  moreover have "\<bar>real_of_int n / real_of_int k\<bar> \<le> \<bar>real_of_int n\<bar>"
  proof -
    have "1 \<le> \<bar>real_of_int k\<bar>" using assms(2) by (simp add: abs_if)
    then have "\<bar>real_of_int n\<bar> / \<bar>real_of_int k\<bar> \<le> \<bar>real_of_int n\<bar> / 1"
      by (intro divide_left_mono) simp_all
    then show ?thesis by simp
  qed
  ultimately have "(2::real) ^ 1023 \<le> real_of_int \<bar>n\<bar>" by simp
  then have "2 ^ 1023 \<le> \<bar>n\<bar>" by (simp only: numeral_power_le_of_int_cancel_iff)
  with e show ?thesis by simp
qed

lemma truediv_float_consts:
  "truediv (PFloat f) 1000 = Inr (round_fl (fdiv f (Fin 1000)))"
  "truediv (PFloat f) 1000000 = Inr (round_fl (fdiv f (Fin 1000000)))"
  "truediv (PFloat f) 1000000000 = Inr (round_fl (fdiv f (Fin 1000000000)))"
  by (simp_all add: float_of_int_consts)

lemma truediv_raise:
  assumes "truediv v k = Inl e" "is_number v" "k \<in> {1000, 1000000, 1000000000}"
  shows "e = OverflowError \<and> (\<exists>n. v = PInt n \<and> 2 ^ 1023 \<le> \<bar>n\<bar>)"
proof (cases v)
  case (PInt n)
  then show ?thesis using assms truediv_int_raise[of n k e] by auto
next
  case (PFloat f)
  then show ?thesis using assms truediv_float_consts[of f] by auto
qed (use assms in simp_all)

lemma fmt2_num_raise:
  assumes "fmt2_num v = Inl e" "is_number v"
  shows "e = OverflowError \<and> (\<exists>n. v = PInt n \<and> 2 ^ 1023 \<le> \<bar>n\<bar>)"
proof (cases v)
  case (PInt n)
  then show ?thesis using assms float_of_int_raise[of n e] by (auto split: sum.splits)
qed (use assms in simp_all)

subsection \<open>The shape of a formatted number\<close>

lemma digit_char_in: "digit_char n \<in> set ''0123456789''"
  unfolding digit_char_def by (rule nth_mem) simp

lemma fmt2_last: "last (fmt2 x) \<in> set ''0123456789''"
  by (simp add: fmt2_def Let_def digit_char_in del: set_simps)

lemma fmt2f_last: "last (fmt2f f) \<in> set ''0123456789fn''"
  using fmt2_last by (cases f) auto

lemma fmt2f_not_suffixed:
  "fmt2f x \<noteq> fmt2f y @ ''B''" "fmt2f x \<noteq> fmt2f y @ ''M''" "fmt2f x \<noteq> fmt2f y @ ''K''"
  "fmt2f y @ ''B'' \<noteq> fmt2f x" "fmt2f y @ ''M'' \<noteq> fmt2f x" "fmt2f y @ ''K'' \<noteq> fmt2f x"
proof -
  have *: "fmt2f x \<noteq> fmt2f y @ [c]" if "c \<in> {CHR ''B'', CHR ''M'', CHR ''K''}" for c
  proof
    assume "fmt2f x = fmt2f y @ [c]"
    then have "last (fmt2f x) = last (fmt2f y @ [c])" by (simp only:)
    then have "last (fmt2f x) = c" by simp
    with that fmt2f_last[of x] show False by auto
  qed
  show "fmt2f x \<noteq> fmt2f y @ ''B''" "fmt2f x \<noteq> fmt2f y @ ''M''" "fmt2f x \<noteq> fmt2f y @ ''K''"
    by (rule *, simp)+
  then show "fmt2f y @ ''B'' \<noteq> fmt2f x" "fmt2f y @ ''M'' \<noteq> fmt2f x" "fmt2f y @ ''K'' \<noteq> fmt2f x"
    by (simp_all only: not_sym[of "fmt2f x"] simp_thms)
qed

lemma fmt2_num_float_shape:
  assumes "fmt2_num v = Inr t"
  shows "\<exists>f. t = fmt2f f"
  using assms by (cases v) (auto split: sum.splits)

subsection \<open>The summary loop\<close>

lemma format_entry_num:
  assumes "is_number v" "key \<notin> set ratio_keys"
  shows "format_entry key v =
     (case format_large_number v of Inl e \<Rightarrow> Inl e | Inr s \<Rightarrow> Inr (PStr s))"
  using assms by (simp add: format_entry_def format_large_number_def split: sum.splits)

lemma format_entry_str: "format_entry key (PStr s) = Inr (PStr s)"
  by (simp add: format_entry_def)

lemma format_entry_none: "format_entry key PNone = Inr PNone"
  by (simp add: format_entry_def)

lemma format_large_number_raise:
  assumes "format_large_number v = Inl e"
  shows "e = OverflowError \<and> (\<exists>n. v = PInt n \<and> 2 ^ 1023 \<le> \<bar>n\<bar>)"
proof -
  have n: "is_number v" using assms by (auto simp: format_large_number_def split: if_splits)
  have "truediv v 1000000000 = Inl e \<or> truediv v 1000000 = Inl e \<or> truediv v 1000 = Inl e
      \<or> fmt2_num v = Inl e"
    using assms n by (auto simp: format_large_number_def split: if_splits sum.splits)
  then show ?thesis using truediv_raise[OF _ n] fmt2_num_raise[OF _ n] by auto
qed

lemma format_entry_raise:
  assumes "format_entry key val = Inl e"
  shows "e = OverflowError \<and> key \<notin> set ratio_keys \<and> (\<exists>n. val = PInt n \<and> 2 ^ 1023 \<le> \<bar>n\<bar>)"
proof (cases "is_number val \<and> key \<notin> set ratio_keys")
  case True
  then have "format_large_number val = Inl e"
    using assms format_entry_num[of val key] by (auto split: sum.splits)
  from format_large_number_raise[OF this] True show ?thesis by simp
next
  case False
  then show ?thesis using assms by (auto simp: format_entry_def split: pyval.splits if_splits)
qed

lemma format_items_Inr:
  assumes "format_items xs = Inr ys" "map_of xs k = Some v"
  shows "\<exists>v'. format_entry k v = Inr v' \<and> map_of ys k = Some v'"
  using assms
proof (induction xs arbitrary: ys)
  case Nil
  then show ?case by simp
next
  case (Cons a xs)
  obtain key val where a: "a = (key, val)" by (cases a)
  from Cons.prems(1) obtain val' rest' where
    v: "format_entry key val = Inr val'" and r: "format_items xs = Inr rest'"
    and ys: "ys = (key, val') # rest'"
    by (auto simp: a split: sum.splits)
  show ?case
  proof (cases "k = key")
    case True
    then show ?thesis using Cons.prems(2) v ys a by simp
  next
    case False
    then have "map_of xs k = Some v" using Cons.prems(2) a by simp
    from Cons.IH[OF r this] show ?thesis using False ys by simp
  qed
qed

lemma format_items_Inl:
  assumes "format_items xs = Inl e"
  shows "\<exists>key val. (key, val) \<in> set xs \<and> format_entry key val = Inl e"
  using assms
proof (induction xs)
  case Nil
  then show ?case by simp
next
  case (Cons a xs)
  obtain key val where a: "a = (key, val)" by (cases a)
  show ?case
  proof (cases "format_entry key val")
    case (Inl e')
    then show ?thesis using Cons.prems a by auto
  next
    case (Inr val')
    then have "format_items xs = Inl e" using Cons.prems a by (auto split: sum.splits)
    from Cons.IH[OF this] show ?thesis by auto
  qed
qed

lemma format_items_raises:
  assumes "(key, val) \<in> set xs" "format_entry key val = Inl e"
  shows "\<exists>e'. format_items xs = Inl e'"
  using assms
proof (induction xs)
  case Nil
  then show ?case by simp
next
  case (Cons a xs)
  then show ?case by (cases a) (auto split: sum.splits)
qed

lemma format_items_total:
  "(\<exists>e. format_items xs = Inl e) \<or> (\<exists>ys. format_items xs = Inr ys)"
  by (cases "format_items xs") auto

subsection \<open>The summary dictionary\<close>

lemma dict_get_absent: "d k = None \<Longrightarrow> dict_get d k dflt = dflt"
  by (simp add: dict_get_def)

lemma dict_get_present: "d k = Some v \<Longrightarrow> dict_get d k dflt = v"
  by (simp add: dict_get_def)

lemma dividend_yield_entry_ok: "\<exists>dy. dividend_yield_entry d = Inr dy"
proof (cases "d ''dividendYield''")
  case None
  then show ?thesis by (simp add: dividend_yield_entry_def dict_get_def)
next
  case (Some v)
  then show ?thesis
    by (cases v) (simp_all add: dividend_yield_entry_def dict_get_def float_of_int_consts)
qed

lemma dividend_yield_entry_absent:
  "d ''dividendYield'' = None \<Longrightarrow> dividend_yield_entry d = Inr (PStr ''N/A'')"
  by (simp add: dividend_yield_entry_def dict_get_def)

lemma summary_shape:
  assumes "d \<noteq> Map.empty" "dividend_yield_entry d = Inr dy"
  shows "get_financial_summary (Some d) =
     (case format_items (raw_summary d dy) of Inl e \<Rightarrow> Inl e | Inr s \<Rightarrow> Inr (Some s))"
  using assms by (simp add: get_financial_summary_def)

lemma raw_lookup:
  "map_of (raw_summary d dy) ''name'' = Some (dict_get d ''shortName'' (PStr ''N/A''))"
  "map_of (raw_summary d dy) ''sector'' = Some (dict_get d ''sector'' (PStr ''N/A''))"
  "map_of (raw_summary d dy) ''industry'' = Some (dict_get d ''industry'' (PStr ''N/A''))"
  "map_of (raw_summary d dy) ''market_cap'' = Some (dict_get d ''marketCap'' (PStr ''N/A''))"
  "map_of (raw_summary d dy) ''current_price'' =
     Some (dict_get d ''currentPrice'' (dict_get d ''regularMarketPrice'' (PStr ''N/A'')))"
  "map_of (raw_summary d dy) ''open'' = Some (dict_get d ''open'' (PStr ''N/A''))"
  "map_of (raw_summary d dy) ''high'' = Some (dict_get d ''dayHigh'' (PStr ''N/A''))"
  "map_of (raw_summary d dy) ''low'' = Some (dict_get d ''dayLow'' (PStr ''N/A''))"
  "map_of (raw_summary d dy) ''previous_close'' = Some (dict_get d ''previousClose'' (PStr ''N/A''))"
  "map_of (raw_summary d dy) ''volume'' = Some (dict_get d ''volume'' (PStr ''N/A''))"
  "map_of (raw_summary d dy) ''avg_volume'' = Some (dict_get d ''averageVolume'' (PStr ''N/A''))"
  "map_of (raw_summary d dy) ''52w_high'' = Some (dict_get d ''fiftyTwoWeekHigh'' (PStr ''N/A''))"
  "map_of (raw_summary d dy) ''52w_low'' = Some (dict_get d ''fiftyTwoWeekLow'' (PStr ''N/A''))"
  "map_of (raw_summary d dy) ''pe_ratio'' = Some (dict_get d ''trailingPE'' PNone)"
  "map_of (raw_summary d dy) ''forward_pe'' = Some (dict_get d ''forwardPE'' PNone)"
  "map_of (raw_summary d dy) ''peg_ratio'' = Some (dict_get d ''pegRatio'' PNone)"
  "map_of (raw_summary d dy) ''price_to_book'' = Some (dict_get d ''priceToBook'' PNone)"
  "map_of (raw_summary d dy) ''enterprise_value'' = Some (dict_get d ''enterpriseValue'' PNone)"
  "map_of (raw_summary d dy) ''enterprise_to_revenue'' = Some (dict_get d ''enterpriseToRevenue'' PNone)"
  "map_of (raw_summary d dy) ''enterprise_to_ebitda'' = Some (dict_get d ''enterpriseToEbitda'' PNone)"
  "map_of (raw_summary d dy) ''beta'' = Some (dict_get d ''beta'' (PStr ''N/A''))"
  "map_of (raw_summary d dy) ''dividend_rate'' = Some (dict_get d ''dividendRate'' (PStr ''N/A''))"
  "map_of (raw_summary d dy) ''dividend_yield'' = Some dy"
  "map_of (raw_summary d dy) ''target_mean_price'' = Some (dict_get d ''targetMeanPrice'' (PStr ''N/A''))"
  "map_of (raw_summary d dy) ''recommendation'' = Some (dict_get d ''recommendationKey'' (PStr ''N/A''))"
  "map_of (raw_summary d dy) ''esg_score'' = Some (dict_get d ''esgScore'' (PStr ''N/A''))"
  by (simp_all add: raw_summary_def)

lemma dict_get_int:
  assumes "PInt n = dict_get d raw dflt"
  shows "d raw = Some (PInt n) \<or> dflt = PInt n"
  using assms by (cases "d raw") (simp_all add: dict_get_def)

lemma raw_int_present:
  assumes "(key, PInt n) \<in> set (raw_summary d dy)" "key \<notin> set ratio_keys"
  shows "\<exists>raw. d raw = Some (PInt n)"
proof -
  have "key = ''dividend_yield'' \<or> (\<exists>raw dflt. PInt n = dict_get d raw dflt
      \<and> (dflt = PStr ''N/A'' \<or> dflt = PNone \<or> dflt = dict_get d ''regularMarketPrice'' (PStr ''N/A'')))"
    using assms(1) unfolding raw_summary_def by (simp only: set_simps insert_iff empty_iff prod.inject) blast
  moreover have "key \<noteq> ''dividend_yield''" using assms(2) by (auto simp: ratio_keys_def)
  ultimately obtain raw dflt where g: "PInt n = dict_get d raw dflt"
    and df: "dflt = PStr ''N/A'' \<or> dflt = PNone \<or> dflt = dict_get d ''regularMarketPrice'' (PStr ''N/A'')"
    by blast
  from dict_get_int[OF g] show ?thesis
  proof
    assume "d raw = Some (PInt n)"
    then show ?thesis by blast
  next
    assume "dflt = PInt n"
    with df have "PInt n = dict_get d ''regularMarketPrice'' (PStr ''N/A'')" by auto
    from dict_get_int[OF this] show ?thesis by auto
  qed
qed

lemma summary_raise:
  assumes "get_financial_summary fetched = Inl e"
  shows "e = OverflowError \<and> (\<exists>d raw n. fetched = Some d \<and> d raw = Some (PInt n) \<and> 2 ^ 1023 \<le> \<bar>n\<bar>)"
proof -
  obtain d where d: "fetched = Some d" "d \<noteq> Map.empty"
    using assms by (cases fetched) (auto simp: get_financial_summary_def split: if_splits)
  obtain dy where dy: "dividend_yield_entry d = Inr dy" using dividend_yield_entry_ok by blast
  have "format_items (raw_summary d dy) = Inl e"
    using assms d summary_shape[OF d(2) dy] by (auto split: sum.splits)
  then obtain key val where kv: "(key, val) \<in> set (raw_summary d dy)"
    and r: "format_entry key val = Inl e"
    using format_items_Inl by blast
  from format_entry_raise[OF r] obtain n where
    e: "e = OverflowError" and k: "key \<notin> set ratio_keys" and v: "val = PInt n"
    and n: "2 ^ 1023 \<le> \<bar>n\<bar>" by blast
  from raw_int_present[OF kv[unfolded v] k] obtain raw where "d raw = Some (PInt n)" by blast
  with e n d show ?thesis by blast
qed

lemma summary_returns:
  assumes "d \<noteq> Map.empty" "\<And>raw n. d raw = Some (PInt n) \<Longrightarrow> \<bar>n\<bar> < 2 ^ 1023"
  shows "\<exists>s. get_financial_summary (Some d) = Inr (Some s)"
proof (cases "get_financial_summary (Some d)")
  case (Inl e)
  from summary_raise[OF this] obtain raw n where "d raw = Some (PInt n)" "2 ^ 1023 \<le> \<bar>n\<bar>"
    by auto
  with assms(2)[of raw n] show ?thesis by simp
next
  case (Inr r)
  then show ?thesis using assms(1)
    by (auto simp: get_financial_summary_def split: sum.splits)
qed

lemma summary_entry:
  assumes "get_financial_summary (Some d) = Inr (Some s)" "dividend_yield_entry d = Inr dy"
    "map_of (raw_summary d dy) key = Some v"
  shows "\<exists>v'. format_entry key v = Inr v' \<and> map_of s key = Some v'"
proof -
  have ne: "d \<noteq> Map.empty"
    using assms(1) by (auto simp: get_financial_summary_def split: if_splits)
  have "format_items (raw_summary d dy) = Inr s"
    using assms(1) summary_shape[OF ne assms(2)] by (auto split: sum.splits)
  from format_items_Inr[OF this assms(3)] show ?thesis .
qed

subsection \<open>Thresholds of the large-number format\<close>

lemma fmt2_nearest:
  "\<exists>n::nat. fmt2 y = (if y < 0 then ''-'' else '''') @ string_of_nat (n div 100) @ ''.''
                      @ [digit_char (n div 10), digit_char n]
     \<and> \<bar>\<bar>y\<bar> * 100 - real n\<bar> \<le> 1 / 2
     \<and> (\<bar>\<bar>y\<bar> * 100 - real n\<bar> = 1 / 2 \<longrightarrow> even n)"
proof -
  define r where "r = round_half_even (\<bar>y\<bar> * 100)"
  have "0 \<le> \<lfloor>\<bar>y\<bar> * 100\<rfloor>" by simp
  then have r0: "0 \<le> r" using round_half_even_bounds(1)[of "\<bar>y\<bar> * 100"] unfolding r_def by linarith
  then have rn: "real (nat r) = of_int r" by simp
  have "fmt2 y = (if y < 0 then ''-'' else '''') @ string_of_nat (nat r div 100) @ ''.''
                      @ [digit_char (nat r div 10), digit_char (nat r)]"
    by (simp add: fmt2_def Let_def r_def)
  moreover have "\<bar>\<bar>y\<bar> * 100 - real (nat r)\<bar> \<le> 1 / 2"
  proof -
    have "\<bar>\<bar>y\<bar> * 100 - of_int r\<bar> \<le> 1 / 2"
      unfolding r_def by (rule round_half_even_nearest(1))
    then show ?thesis by (simp only: rn)
  qed
  moreover have "\<bar>\<bar>y\<bar> * 100 - real (nat r)\<bar> = 1 / 2 \<longrightarrow> even (nat r)"
  proof
    assume "\<bar>\<bar>y\<bar> * 100 - real (nat r)\<bar> = 1 / 2"
    then have "\<bar>\<bar>y\<bar> * 100 - of_int r\<bar> = 1 / 2" by (simp only: rn)
    then have "even r" unfolding r_def by (rule round_half_even_nearest(2))
    then show "even (nat r)" using r0 by (simp add: even_nat_iff)
  qed
  ultimately show ?thesis by blast
qed


lemma py_gt_mono:
  assumes "py_gt v a" "b \<le> a"
  shows "py_gt v b"
proof (cases v)
  case (PFloat f)
  then show ?thesis using assms by (cases f) auto
qed (use assms in auto)

lemma thresholds_returned:
  assumes "format_large_number v = Inr s" "is_number v"
  shows "(py_gt v 1000000000 \<longleftrightarrow> (\<exists>q. truediv v 1000000000 = Inr q \<and> s = ''$'' @ fmt2f q @ ''B''))"
    and "(py_gt v 1000000 \<and> \<not> py_gt v 1000000000
           \<longleftrightarrow> (\<exists>q. truediv v 1000000 = Inr q \<and> s = ''$'' @ fmt2f q @ ''M''))"
    and "(py_gt v 1000 \<and> \<not> py_gt v 1000000
           \<longleftrightarrow> (\<exists>q. truediv v 1000 = Inr q \<and> s = ''$'' @ fmt2f q @ ''K''))"
    and "(\<not> py_gt v 1000 \<longleftrightarrow> (\<exists>t. fmt2_num v = Inr t \<and> s = ''$'' @ t))"
proof -
  have gt: "py_gt v 1000000000 \<Longrightarrow> py_gt v 1000000" "py_gt v 1000000 \<Longrightarrow> py_gt v 1000"
    by (erule py_gt_mono, simp)+
  have shape: "(py_gt v 1000000000 \<and> (\<exists>q. truediv v 1000000000 = Inr q \<and> s = ''$'' @ fmt2f q @ ''B''))
    \<or> (\<not> py_gt v 1000000000 \<and> py_gt v 1000000
        \<and> (\<exists>q. truediv v 1000000 = Inr q \<and> s = ''$'' @ fmt2f q @ ''M''))
    \<or> (\<not> py_gt v 1000000 \<and> py_gt v 1000
        \<and> (\<exists>q. truediv v 1000 = Inr q \<and> s = ''$'' @ fmt2f q @ ''K''))
    \<or> (\<not> py_gt v 1000 \<and> (\<exists>f. fmt2_num v = Inr (fmt2f f) \<and> s = ''$'' @ fmt2f f))"
  proof (cases "py_gt v 1000000000")
    case True
    then show ?thesis using assms
      by (cases "truediv v 1000000000") (simp_all add: format_large_number_def)
  next
    case g9: False
    show ?thesis
    proof (cases "py_gt v 1000000")
      case True
      then show ?thesis using assms g9
        by (cases "truediv v 1000000") (simp_all add: format_large_number_def)
    next
      case g6: False
      show ?thesis
      proof (cases "py_gt v 1000")
        case True
        then show ?thesis using assms g9 g6
          by (cases "truediv v 1000") (simp_all add: format_large_number_def)
      next
        case g3: False
        obtain t where t: "fmt2_num v = Inr t" "s = ''$'' @ t"
          using assms g9 g6 g3
          by (cases "fmt2_num v") (simp_all add: format_large_number_def)
        from fmt2_num_float_shape[OF t(1)] obtain f where "t = fmt2f f" by blast
        then show ?thesis using t g3 g6 g9 by auto
      qed
    qed
  qed
  show "(py_gt v 1000000000 \<longleftrightarrow> (\<exists>q. truediv v 1000000000 = Inr q \<and> s = ''$'' @ fmt2f q @ ''B''))"
    using shape gt by (auto simp: fmt2f_not_suffixed)
  show "(py_gt v 1000000 \<and> \<not> py_gt v 1000000000
           \<longleftrightarrow> (\<exists>q. truediv v 1000000 = Inr q \<and> s = ''$'' @ fmt2f q @ ''M''))"
    using shape gt by (auto simp: fmt2f_not_suffixed)
  show "(py_gt v 1000 \<and> \<not> py_gt v 1000000
           \<longleftrightarrow> (\<exists>q. truediv v 1000 = Inr q \<and> s = ''$'' @ fmt2f q @ ''K''))"
    using shape gt by (auto simp: fmt2f_not_suffixed)
  show "(\<not> py_gt v 1000 \<longleftrightarrow> (\<exists>t. fmt2_num v = Inr t \<and> s = ''$'' @ t))"
  proof
    assume "\<not> py_gt v 1000"
    then show "\<exists>t. fmt2_num v = Inr t \<and> s = ''$'' @ t" using shape gt by auto
  next
    assume "\<exists>t. fmt2_num v = Inr t \<and> s = ''$'' @ t"
    then obtain t where t: "fmt2_num v = Inr t" "s = ''$'' @ t" by blast
    from fmt2_num_float_shape[OF t(1)] obtain f where f: "t = fmt2f f" by blast
    show "\<not> py_gt v 1000"
    proof
      assume "py_gt v 1000"
      then have "\<exists>q. s = ''$'' @ fmt2f q @ ''B'' \<or> s = ''$'' @ fmt2f q @ ''M''
          \<or> s = ''$'' @ fmt2f q @ ''K''"
        using shape by blast
      then show False using t(2) f by (auto simp: fmt2f_not_suffixed)
    qed
  qed
qed

lemma field_lookup:
  assumes "(key, raw) \<in> set (na_default_fields @ none_default_fields)" "key \<noteq> ''dividend_yield''"
  shows "\<exists>dflt. map_of (raw_summary d dy) key = Some (dict_get d raw dflt)"
proof -
  from assms(1) have
    "(key, raw) \<in> set na_default_fields \<or> (key, raw) \<in> set none_default_fields" by simp
  then show ?thesis
  proof
    assume "(key, raw) \<in> set na_default_fields"
    then show ?thesis using assms(2) unfolding na_default_fields_def
      by (simp only: set_simps insert_iff empty_iff prod.inject) (elim disjE conjE; simp only: raw_lookup; blast)
  next
    assume "(key, raw) \<in> set none_default_fields"
    then show ?thesis unfolding none_default_fields_def
      by (simp only: set_simps insert_iff empty_iff prod.inject) (elim disjE conjE; simp only: raw_lookup; blast)
  qed
qed

lemma ilog2_examples:
  "ilog2 500 = 8" "ilog2 (5 / 2) = 1" "ilog2 (203 / 200) = 0" "ilog2 (499 / 250) = 0"
  "ilog2 (9 / 8) = 0" "ilog2 2500000000 = 31"
  by (rule ilog2_eqI; simp)+

lemma fmt_examples:
  "format_large_number (PInt 2500000000) = Inr ''$2.50B''"
  "format_large_number (PInt 1000000) = Inr ''$1000.00K''"
  "format_large_number (PInt 500000) = Inr ''$500.00K''"
  "format_large_number (PInt 1015) = Inr ''$1.01K''"
  "format_large_number (PInt 1996) = Inr ''$2.00K''"
  "format_large_number (PInt 1125) = Inr ''$1.12K''"
  by (simp_all add: format_large_number_def to_double_def ilog2_examples ilog2_consts Let_def
      round_half_even_def fmt2_def digit_char_def)

lemma huge_int_raises:
  "py_gt (PInt (10 ^ 400)) 1000000000"
  "format_large_number (PInt (10 ^ 400)) = Inl OverflowError"
proof -
  show g: "py_gt (PInt (10 ^ 400)) 1000000000" by simp
  have "(2::real) ^ 1024 \<le> \<bar>real_of_int (10 ^ 400) / real_of_int 1000000000\<bar>" by simp
  from to_double_overflow[OF this]
  have "is_inf (to_double (real_of_int (10 ^ 400) / real_of_int 1000000000))"
    by (simp add: inf_of_def)
  then have "truediv (PInt (10 ^ 400)) 1000000000 = Inl OverflowError"
    by (simp add: Let_def)
  then show "format_large_number (PInt (10 ^ 400)) = Inl OverflowError"
    using g by (simp add: format_large_number_def)
qed

lemma summary_number_field:
  assumes f: "(key, raw) \<in> set (na_default_fields @ none_default_fields)"
    and k: "key \<notin> set ratio_keys" and v: "d raw = Some v" and n: "is_number v"
  shows "\<forall>sm. get_financial_summary (Some d) = Inr (Some sm) \<longrightarrow>
           (\<exists>s. format_large_number v = Inr s \<and> map_of sm key = Some (PStr s))"
    and "\<forall>e. format_large_number v = Inl e \<longrightarrow> get_financial_summary (Some d) = Inl OverflowError"
proof -
  obtain dy where dy: "dividend_yield_entry d = Inr dy" using dividend_yield_entry_ok by blast
  have kd: "key \<noteq> ''dividend_yield''" using k by (auto simp: ratio_keys_def)
  from field_lookup[OF f kd, of d dy] v
  have m: "map_of (raw_summary d dy) key = Some v" by (auto simp: dict_get_present)
  have ne: "d \<noteq> Map.empty" using v by auto
  show "\<forall>sm. get_financial_summary (Some d) = Inr (Some sm) \<longrightarrow>
           (\<exists>s. format_large_number v = Inr s \<and> map_of sm key = Some (PStr s))"
  proof (intro allI impI)
    fix sm assume "get_financial_summary (Some d) = Inr (Some sm)"
    from summary_entry[OF this dy m] obtain v' where
      "format_entry key v = Inr v'" "map_of sm key = Some v'" by blast
    then show "\<exists>s. format_large_number v = Inr s \<and> map_of sm key = Some (PStr s)"
      using format_entry_num[OF n k] by (auto split: sum.splits)
  qed
  show "\<forall>e. format_large_number v = Inl e \<longrightarrow> get_financial_summary (Some d) = Inl OverflowError"
  proof (intro allI impI)
    fix e assume "format_large_number v = Inl e"
    then have "format_entry key v = Inl e" using format_entry_num[OF n k] by simp
    moreover have "(key, v) \<in> set (raw_summary d dy)" using m by (rule map_of_SomeD)
    ultimately obtain e' where "format_items (raw_summary d dy) = Inl e'"
      using format_items_raises by blast
    then have r: "get_financial_summary (Some d) = Inl e'"
      using summary_shape[OF ne dy] by simp
    from summary_raise[OF r] r show "get_financial_summary (Some d) = Inl OverflowError" by simp
  qed
qed

text \<open>
  Claim C6, as the code has it. Formatting a number raises only OverflowError, and only for
  an int of magnitude \<open>2 ^ 1023\<close> or more; every float and every smaller int is formatted.
  When a string is returned the comparisons are strict "greater than": it is the float
  quotient by 1e9 with suffix B exactly when the value exceeds 1,000,000,000; otherwise the
  quotient by 1e6 with suffix M exactly when it exceeds 1,000,000; otherwise the quotient by
  1e3 with suffix K exactly when it exceeds 1,000; otherwise the value itself; each with a
  dollar sign and two decimals. The loop of \<open>get_financial_summary\<close> formats a number under a
  non-ratio key the same way, and the summary it returns holds that string under the field.
  Two decimals are the hundredth nearest to the float's exact value, ties to even. 1,000,000
  gives "$1000.00K" and 500,000 gives "$500.00K"; 1015 gives "$1.01K", because the float
  quotient 1015 / 1000 lies below 1.015.
\<close>

theorem format_large_number_thresholds:
  assumes "is_number v"
  shows "(\<forall>e. format_large_number v = Inl e \<longrightarrow>
            e = OverflowError \<and> (\<exists>n. v = PInt n \<and> 2 ^ 1023 \<le> \<bar>n\<bar>))
     \<and> (\<forall>s. format_large_number v = Inr s \<longrightarrow>
            (py_gt v 1000000000
               \<longleftrightarrow> (\<exists>q. truediv v 1000000000 = Inr q \<and> s = ''$'' @ fmt2f q @ ''B''))
          \<and> (py_gt v 1000000 \<and> \<not> py_gt v 1000000000
               \<longleftrightarrow> (\<exists>q. truediv v 1000000 = Inr q \<and> s = ''$'' @ fmt2f q @ ''M''))
          \<and> (py_gt v 1000 \<and> \<not> py_gt v 1000000
               \<longleftrightarrow> (\<exists>q. truediv v 1000 = Inr q \<and> s = ''$'' @ fmt2f q @ ''K''))
          \<and> (\<not> py_gt v 1000 \<longleftrightarrow> (\<exists>t. fmt2_num v = Inr t \<and> s = ''$'' @ t)))
     \<and> (key \<notin> set ratio_keys \<longrightarrow>
            format_entry key v
              = (case format_large_number v of Inl e \<Rightarrow> Inl e | Inr s \<Rightarrow> Inr (PStr s)))
     \<and> (\<forall>(field, raw) \<in> set (na_default_fields @ none_default_fields).
            field \<notin> set ratio_keys \<and> d raw = Some v \<longrightarrow>
              (\<forall>sm. get_financial_summary (Some d) = Inr (Some sm) \<longrightarrow>
                 (\<exists>s. format_large_number v = Inr s \<and> map_of sm field = Some (PStr s)))
            \<and> (\<forall>e. format_large_number v = Inl e \<longrightarrow>
                 get_financial_summary (Some d) = Inl OverflowError))
     \<and> (\<forall>y. \<exists>n::nat.
            fmt2 y = (if y < 0 then ''-'' else '''') @ string_of_nat (n div 100) @ ''.''
                     @ [digit_char (n div 10), digit_char n]
          \<and> \<bar>\<bar>y\<bar> * 100 - real n\<bar> \<le> 1 / 2
          \<and> (\<bar>\<bar>y\<bar> * 100 - real n\<bar> = 1 / 2 \<longrightarrow> even n))
     \<and> format_large_number (PInt 1000000) = Inr ''$1000.00K''
     \<and> format_large_number (PInt 500000) = Inr ''$500.00K''
     \<and> format_large_number (PInt 1015) = Inr ''$1.01K''
     \<and> format_large_number (PInt 1996) = Inr ''$2.00K''
     \<and> format_large_number (PInt 1125) = Inr ''$1.12K''"
proof -
  have a: "\<forall>e. format_large_number v = Inl e \<longrightarrow>
            e = OverflowError \<and> (\<exists>n. v = PInt n \<and> 2 ^ 1023 \<le> \<bar>n\<bar>)"
    using format_large_number_raise by blast
  have b: "\<forall>s. format_large_number v = Inr s \<longrightarrow>
            (py_gt v 1000000000
               \<longleftrightarrow> (\<exists>q. truediv v 1000000000 = Inr q \<and> s = ''$'' @ fmt2f q @ ''B''))
          \<and> (py_gt v 1000000 \<and> \<not> py_gt v 1000000000
               \<longleftrightarrow> (\<exists>q. truediv v 1000000 = Inr q \<and> s = ''$'' @ fmt2f q @ ''M''))
          \<and> (py_gt v 1000 \<and> \<not> py_gt v 1000000
               \<longleftrightarrow> (\<exists>q. truediv v 1000 = Inr q \<and> s = ''$'' @ fmt2f q @ ''K''))
          \<and> (\<not> py_gt v 1000 \<longleftrightarrow> (\<exists>t. fmt2_num v = Inr t \<and> s = ''$'' @ t))"
    using thresholds_returned[OF _ assms] by blast
  have c: "key \<notin> set ratio_keys \<longrightarrow>
            format_entry key v
              = (case format_large_number v of Inl e \<Rightarrow> Inl e | Inr s \<Rightarrow> Inr (PStr s))"
    using format_entry_num[OF assms] by blast
  have d: "\<forall>(field, raw) \<in> set (na_default_fields @ none_default_fields).
            field \<notin> set ratio_keys \<and> d raw = Some v \<longrightarrow>
              (\<forall>sm. get_financial_summary (Some d) = Inr (Some sm) \<longrightarrow>
                 (\<exists>s. format_large_number v = Inr s \<and> map_of sm field = Some (PStr s)))
            \<and> (\<forall>e. format_large_number v = Inl e \<longrightarrow>
                 get_financial_summary (Some d) = Inl OverflowError)"
  proof (intro ballI, clarify)
    fix field raw
    assume f: "(field, raw) \<in> set (na_default_fields @ none_default_fields)"
      and k: "field \<notin> set ratio_keys" and v: "d raw = Some v"
    from summary_number_field[of field raw d v, OF f k v assms]
    show "(\<forall>sm. get_financial_summary (Some d) = Inr (Some sm) \<longrightarrow>
                 (\<exists>s. format_large_number v = Inr s \<and> map_of sm field = Some (PStr s)))
            \<and> (\<forall>e. format_large_number v = Inl e \<longrightarrow>
                 get_financial_summary (Some d) = Inl OverflowError)"
      by blast
  qed
  have e: "\<forall>y. \<exists>n::nat.
            fmt2 y = (if y < 0 then ''-'' else '''') @ string_of_nat (n div 100) @ ''.''
                     @ [digit_char (n div 10), digit_char n]
          \<and> \<bar>\<bar>y\<bar> * 100 - real n\<bar> \<le> 1 / 2
          \<and> (\<bar>\<bar>y\<bar> * 100 - real n\<bar> = 1 / 2 \<longrightarrow> even n)"
    using fmt2_nearest by blast
  from a b c d e fmt_examples(2-6) show ?thesis by (intro conjI)
qed

theorem format_large_number_thresholds_witness:
  "\<exists>sm. get_financial_summary (Some sparse_info) = Inr (Some sm)
     \<and> map_of sm ''market_cap'' = Some (PStr ''$2.50B'')
     \<and> format_large_number (PInt 2500000000) = Inr ''$2.50B''"
proof -
  have "\<bar>n\<bar> < 2 ^ 1023" if "sparse_info raw = Some (PInt n)" for raw n
    using that by (auto simp: sparse_info_def split: if_splits)
  moreover have "sparse_info \<noteq> Map.empty" by (simp add: sparse_info_def)
  ultimately obtain sm where sm: "get_financial_summary (Some sparse_info) = Inr (Some sm)"
    using summary_returns[of sparse_info] by blast
  have n: "is_number (PInt 2500000000)" by simp
  have f: "(''market_cap'', ''marketCap'') \<in> set (na_default_fields @ none_default_fields)"
    by (simp add: na_default_fields_def)
  have k: "''market_cap'' \<notin> set ratio_keys" by (simp add: ratio_keys_def)
  have v: "sparse_info ''marketCap'' = Some (PInt 2500000000)" by (simp add: sparse_info_def)
  from format_large_number_thresholds[OF n, of "''market_cap''" sparse_info]
  have "\<forall>(field, raw) \<in> set (na_default_fields @ none_default_fields).
            field \<notin> set ratio_keys \<and> sparse_info raw = Some (PInt 2500000000) \<longrightarrow>
              (\<forall>sm. get_financial_summary (Some sparse_info) = Inr (Some sm) \<longrightarrow>
                 (\<exists>s. format_large_number (PInt 2500000000) = Inr s
                    \<and> map_of sm field = Some (PStr s)))
            \<and> (\<forall>e. format_large_number (PInt 2500000000) = Inl e \<longrightarrow>
                 get_financial_summary (Some sparse_info) = Inl OverflowError)"
    by blast
  with f k v sm have "\<exists>s. format_large_number (PInt 2500000000) = Inr s
                    \<and> map_of sm ''market_cap'' = Some (PStr s)"
    by blast
  then show ?thesis using sm fmt_examples(1) by auto
qed

text \<open>
  The int \<open>10 ^ 400\<close> exceeds 1,000,000,000, and formatting it raises OverflowError: its
  quotient by 1e9 is beyond the range of a float. The claim as stated, for every numeric
  value, fails there.
\<close>

theorem format_large_number_overflow_counterexample:
  "py_gt (PInt (10 ^ 400)) 1000000000
   \<and> format_large_number (PInt (10 ^ 400)) = Inl OverflowError
   \<and> (\<forall>s. format_large_number (PInt (10 ^ 400)) \<noteq> Inr s)"
  using huge_int_raises by simp

subsection \<open>Absent fields of the summary\<close>

lemma na_field_lookup:
  assumes "(key, raw) \<in> set na_default_fields" "d raw = None" "dividend_yield_entry d = Inr dy"
  shows "map_of (raw_summary d dy) key = Some (PStr ''N/A'')"
proof -
  have dy: "d ''dividendYield'' = None \<Longrightarrow> dy = PStr ''N/A''"
    using assms(3) by (simp add: dividend_yield_entry_absent)
  show ?thesis
    using assms(1,2) dy unfolding na_default_fields_def
    by (simp only: set_simps insert_iff empty_iff prod.inject)
      (elim disjE conjE; simp add: raw_lookup dict_get_absent)
qed

lemma none_field_lookup:
  assumes "(key, raw) \<in> set none_default_fields" "d raw = None"
  shows "map_of (raw_summary d dy) key = Some PNone"
  using assms unfolding none_default_fields_def
  by (simp only: set_simps insert_iff empty_iff prod.inject)
    (elim disjE conjE; simp add: raw_lookup dict_get_absent)

lemma absent_fields:
  assumes r: "get_financial_summary (Some d) = Inr (Some s)"
  shows "(\<forall>(key, raw) \<in> set na_default_fields.
             d raw = None \<longrightarrow> map_of s key = Some (PStr ''N/A''))
       \<and> (d ''currentPrice'' = None \<and> d ''regularMarketPrice'' = None
            \<longrightarrow> map_of s ''current_price'' = Some (PStr ''N/A''))
       \<and> (\<forall>(key, raw) \<in> set none_default_fields.
             d raw = None \<longrightarrow> map_of s key = Some PNone)"
proof -
  obtain dy where dy: "dividend_yield_entry d = Inr dy" using dividend_yield_entry_ok by blast
  have na: "map_of s key = Some (PStr ''N/A'')"
    if "(key, raw) \<in> set na_default_fields" "d raw = None" for key raw
  proof -
    from summary_entry[OF r dy na_field_lookup[of key raw d dy, OF that dy]]
    show ?thesis by (simp add: format_entry_str)
  qed
  have no: "map_of s key = Some PNone"
    if "(key, raw) \<in> set none_default_fields" "d raw = None" for key raw
  proof -
    from summary_entry[OF r dy none_field_lookup[of key raw d dy, OF that]]
    show ?thesis by (simp add: format_entry_none)
  qed
  have cp: "map_of s ''current_price'' = Some (PStr ''N/A'')"
    if "d ''currentPrice'' = None" "d ''regularMarketPrice'' = None"
  proof -
    have "map_of (raw_summary d dy) ''current_price'' = Some (PStr ''N/A'')"
      using that by (simp add: raw_lookup dict_get_absent)
    from summary_entry[OF r dy this] show ?thesis by (simp add: format_entry_str)
  qed
  from na no cp show ?thesis by blast
qed

text \<open>
  Claim C7, as the code has it. With no record or an empty record the formatter returns
  None. It raises only OverflowError and only when a field that is present holds an int of
  magnitude \<open>2 ^ 1023\<close> or more, so never because a field is absent; a record that is not
  empty and holds no such int gives a summary. In every summary returned, a field whose raw
  key is absent is the string "N/A" for the eighteen fields read with that default,
  \<open>current_price\<close> is "N/A" when both of its raw keys are absent, and the seven fields
  pe_ratio, forward_pe, peg_ratio, price_to_book, enterprise_value, enterprise_to_revenue and
  enterprise_to_ebitda are None when their raw key is absent.
\<close>

theorem summary_absent_fields:
  "get_financial_summary None = Inr None
   \<and> get_financial_summary (Some Map.empty) = Inr None
   \<and> (\<forall>e. get_financial_summary fetched = Inl e \<longrightarrow>
         e = OverflowError
         \<and> (\<exists>d raw n. fetched = Some d \<and> d raw = Some (PInt n) \<and> 2 ^ 1023 \<le> \<bar>n\<bar>))
   \<and> (d \<noteq> Map.empty \<and> (\<forall>raw n. d raw = Some (PInt n) \<longrightarrow> \<bar>n\<bar> < 2 ^ 1023) \<longrightarrow>
         (\<exists>s. get_financial_summary (Some d) = Inr (Some s)))
   \<and> (\<forall>s. get_financial_summary (Some d) = Inr (Some s) \<longrightarrow>
         (\<forall>(key, raw) \<in> set na_default_fields.
             d raw = None \<longrightarrow> map_of s key = Some (PStr ''N/A''))
       \<and> (d ''currentPrice'' = None \<and> d ''regularMarketPrice'' = None
            \<longrightarrow> map_of s ''current_price'' = Some (PStr ''N/A''))
       \<and> (\<forall>(key, raw) \<in> set none_default_fields.
             d raw = None \<longrightarrow> map_of s key = Some PNone))"
proof (intro conjI)
  show "get_financial_summary None = Inr None" by (simp add: get_financial_summary_def)
  show "get_financial_summary (Some Map.empty) = Inr None"
    by (simp add: get_financial_summary_def)
  show "\<forall>e. get_financial_summary fetched = Inl e \<longrightarrow>
         e = OverflowError
         \<and> (\<exists>d raw n. fetched = Some d \<and> d raw = Some (PInt n) \<and> 2 ^ 1023 \<le> \<bar>n\<bar>)"
    using summary_raise by blast
  show "d \<noteq> Map.empty \<and> (\<forall>raw n. d raw = Some (PInt n) \<longrightarrow> \<bar>n\<bar> < 2 ^ 1023) \<longrightarrow>
         (\<exists>s. get_financial_summary (Some d) = Inr (Some s))"
    using summary_returns[of d] by blast
  show "\<forall>s. get_financial_summary (Some d) = Inr (Some s) \<longrightarrow>
         (\<forall>(key, raw) \<in> set na_default_fields.
             d raw = None \<longrightarrow> map_of s key = Some (PStr ''N/A''))
       \<and> (d ''currentPrice'' = None \<and> d ''regularMarketPrice'' = None
            \<longrightarrow> map_of s ''current_price'' = Some (PStr ''N/A''))
       \<and> (\<forall>(key, raw) \<in> set none_default_fields.
             d raw = None \<longrightarrow> map_of s key = Some PNone)"
    by (intro allI impI) (rule absent_fields)
qed

lemma sparse_nonempty: "sparse_info \<noteq> Map.empty"
  by (simp add: sparse_info_def)

lemma sparse_absent:
  "sparse_info ''sector'' = None" "sparse_info ''trailingPE'' = None"
  "sparse_info ''dividendYield'' = None"
  by (simp_all add: sparse_info_def)

lemma sparse_returns: "\<exists>s. get_financial_summary (Some sparse_info) = Inr (Some s)"
proof -
  have "\<bar>n\<bar> < 2 ^ 1023" if "sparse_info raw = Some (PInt n)" for raw n
    using that by (auto simp: sparse_info_def split: if_splits)
  then show ?thesis using summary_returns[OF sparse_nonempty] by blast
qed

theorem summary_absent_fields_witness:
  "\<exists>s. get_financial_summary (Some sparse_info) = Inr (Some s)
     \<and> map_of s ''sector'' = Some (PStr ''N/A'')
     \<and> map_of s ''dividend_yield'' = Some (PStr ''N/A'')
     \<and> map_of s ''pe_ratio'' = Some PNone"
proof -
  have small: "\<forall>raw n. sparse_info raw = Some (PInt n) \<longrightarrow> \<bar>n\<bar> < 2 ^ 1023"
    by (auto simp: sparse_info_def split: if_splits)
  from summary_absent_fields[of "Some sparse_info" sparse_info] sparse_nonempty small
  obtain s where s: "get_financial_summary (Some sparse_info) = Inr (Some s)" by blast
  note props = summary_absent_fields[of "Some sparse_info" sparse_info,
      THEN conjunct2, THEN conjunct2, THEN conjunct2, THEN conjunct2, rule_format, OF s]
  note na = props[THEN conjunct1] and no = props[THEN conjunct2, THEN conjunct2]
  have "(''sector'', ''sector'') \<in> set na_default_fields"
    "(''dividend_yield'', ''dividendYield'') \<in> set na_default_fields"
    by (simp_all add: na_default_fields_def)
  then have "map_of s ''sector'' = Some (PStr ''N/A'')"
    "map_of s ''dividend_yield'' = Some (PStr ''N/A'')"
    using na[THEN bspec, of "(''sector'', ''sector'')"]
      na[THEN bspec, of "(''dividend_yield'', ''dividendYield'')"] sparse_absent
    by simp_all
  moreover have "(''pe_ratio'', ''trailingPE'') \<in> set none_default_fields"
    by (simp add: none_default_fields_def)
  then have "map_of s ''pe_ratio'' = Some PNone"
    using no[THEN bspec, of "(''pe_ratio'', ''trailingPE'')"] sparse_absent by simp
  ultimately show ?thesis using s by blast
qed

text \<open>
  On a record without \<open>trailingPE\<close> the summary's \<open>pe_ratio\<close> is None, not the string
  "N/A": the claim as stated fails for the fields read with the default None.
\<close>

theorem summary_ratio_absent_counterexample:
  "sparse_info ''trailingPE'' = None
   \<and> summary_field (get_financial_summary (Some sparse_info)) ''pe_ratio'' = Some PNone
   \<and> summary_field (get_financial_summary (Some sparse_info)) ''pe_ratio''
       \<noteq> Some (PStr ''N/A'')"
proof -
  obtain s where s: "get_financial_summary (Some sparse_info) = Inr (Some s)"
    using sparse_returns by blast
  have "(''pe_ratio'', ''trailingPE'') \<in> set none_default_fields"
    by (simp add: none_default_fields_def)
  then have "map_of s ''pe_ratio'' = Some PNone"
    using absent_fields[OF s, THEN conjunct2, THEN conjunct2, THEN bspec,
        of "(''pe_ratio'', ''trailingPE'')"] sparse_absent
    by simp
  then have "summary_field (get_financial_summary (Some sparse_info)) ''pe_ratio'' = Some PNone"
    by (simp add: summary_field_def s)
  then show ?thesis by (simp add: sparse_absent)
qed

subsection \<open>The dividend yield\<close>

lemma dividend_key_ratio: "''dividend_yield'' \<in> set ratio_keys"
  by (simp add: ratio_keys_def)

lemma dividend_field:
  assumes "get_financial_summary (Some d) = Inr (Some sm)" "dividend_yield_entry d = Inr dy"
  shows "\<exists>v'. format_entry ''dividend_yield'' dy = Inr v' \<and> map_of sm ''dividend_yield'' = Some v'"
  using summary_entry[OF assms, of "''dividend_yield''" dy] by (simp add: raw_lookup)

lemma dividend_zero:
  assumes "d ''dividendYield'' = Some v" "\<not> truthy v"
  shows "dividend_yield_entry d = Inr (PStr ''N/A'')"
  using assms by (simp add: dividend_yield_entry_def dict_get_def)

lemma dividend_float:
  assumes "d ''dividendYield'' = Some (PFloat f)" "\<not> is_zero f"
  shows "dividend_yield_entry d = Inr (PFloat (round_fl (fmul f (Fin 100))))"
  using assms by (simp add: dividend_yield_entry_def dict_get_def float_of_int_consts)

lemma dividend_int:
  assumes "d ''dividendYield'' = Some (PInt n)" "n \<noteq> 0"
  shows "dividend_yield_entry d = Inr (PInt (n * 100))"
  using assms by (simp add: dividend_yield_entry_def dict_get_def)

text \<open>
  Claim C10. In every summary returned, a raw \<open>dividendYield\<close> of exactly 0 (the int, or
  the float zero of either sign) is rendered as the string "N/A"; a nonzero float is
  rendered as its float product with 100, with two decimals; and a nonzero int as its
  hundredfold.
\<close>

theorem dividend_yield_zero_not_available:
  assumes "get_financial_summary (Some d) = Inr (Some sm)"
  shows "(d ''dividendYield'' = Some (PInt 0) \<or> d ''dividendYield'' = Some (PFloat (Fin 0))
          \<or> d ''dividendYield'' = Some (PFloat NegZero)
      \<longrightarrow> map_of sm ''dividend_yield'' = Some (PStr ''N/A''))
   \<and> (d ''dividendYield'' = Some (PFloat f) \<and> \<not> is_zero f
      \<longrightarrow> map_of sm ''dividend_yield'' = Some (PStr (fmt2f (round_fl (fmul f (Fin 100))))))
   \<and> (d ''dividendYield'' = Some (PInt n) \<and> n \<noteq> 0
      \<longrightarrow> map_of sm ''dividend_yield'' = Some (PInt (n * 100)))"
proof (intro conjI impI)
  assume z: "d ''dividendYield'' = Some (PInt 0) \<or> d ''dividendYield'' = Some (PFloat (Fin 0))
          \<or> d ''dividendYield'' = Some (PFloat NegZero)"
  then obtain v where "d ''dividendYield'' = Some v" "\<not> truthy v" by auto
  then have "dividend_yield_entry d = Inr (PStr ''N/A'')" by (rule dividend_zero)
  from dividend_field[OF assms this]
  show "map_of sm ''dividend_yield'' = Some (PStr ''N/A'')" by (simp add: format_entry_str)
next
  assume "d ''dividendYield'' = Some (PFloat f) \<and> \<not> is_zero f"
  then have "dividend_yield_entry d = Inr (PFloat (round_fl (fmul f (Fin 100))))"
    by (simp add: dividend_float)
  from dividend_field[OF assms this]
  show "map_of sm ''dividend_yield'' = Some (PStr (fmt2f (round_fl (fmul f (Fin 100)))))"
    using dividend_key_ratio by (simp add: format_entry_def)
next
  assume "d ''dividendYield'' = Some (PInt n) \<and> n \<noteq> 0"
  then have "dividend_yield_entry d = Inr (PInt (n * 100))" by (simp add: dividend_int)
  from dividend_field[OF assms this]
  show "map_of sm ''dividend_yield'' = Some (PInt (n * 100))"
    using dividend_key_ratio by (simp add: format_entry_def)
qed

lemma literal_examples:
  "to_double (211 / 20000) = Fin (3040830468400559 / 288230376151711744)"
  "to_double (123 / 10000) = Fin (7090467253332109 / 576460752303423488)"
proof -
  have i: "ilog2 (211 / 20000) = - 7" "ilog2 (123 / 10000) = - 7"
    by (rule ilog2_eqI; simp)+
  show "to_double (211 / 20000) = Fin (3040830468400559 / 288230376151711744)"
    "to_double (123 / 10000) = Fin (7090467253332109 / 576460752303423488)"
    by (simp_all add: to_double_def i Let_def round_half_even_def)
qed

lemma product_examples:
  "fmt2f (round_fl (fmul (Fin (3040830468400559 / 288230376151711744)) (Fin 100))) = ''1.05''"
  "fmt2f (round_fl (fmul (Fin (7090467253332109 / 576460752303423488)) (Fin 100))) = ''1.23''"
proof -
  have i: "ilog2 (76020761710013975 / 72057594037927936) = 0"
    "ilog2 (177261681333302725 / 144115188075855872) = 0"
    by (rule ilog2_eqI; simp)+
  have p: "round_fl (fmul (Fin (3040830468400559 / 288230376151711744)) (Fin 100))
      = Fin (4751297606875873 / 4503599627370496)"
    "round_fl (fmul (Fin (7090467253332109 / 576460752303423488)) (Fin 100))
      = Fin (2769713770832855 / 2251799813685248)"
    by (simp_all add: fmul_def to_double_def i Let_def round_half_even_def)
  show "fmt2f (round_fl (fmul (Fin (3040830468400559 / 288230376151711744)) (Fin 100))) = ''1.05''"
    "fmt2f (round_fl (fmul (Fin (7090467253332109 / 576460752303423488)) (Fin 100))) = ''1.23''"
    by (simp_all only: p) (simp_all add: fmt2_def round_half_even_def digit_char_def)
qed

lemma dividend_only_returns:
  "\<exists>sm. get_financial_summary (Some [''dividendYield'' \<mapsto> v]) = Inr (Some sm)"
  if "\<And>n. v = PInt n \<Longrightarrow> \<bar>n\<bar> < 2 ^ 1023"
  using that by (intro summary_returns) (auto split: if_splits)

theorem dividend_yield_zero_not_available_witness:
  "(\<exists>sm. get_financial_summary (Some [''dividendYield'' \<mapsto> PFloat (Fin 0)]) = Inr (Some sm)
      \<and> map_of sm ''dividend_yield'' = Some (PStr ''N/A''))
   \<and> (\<exists>sm. get_financial_summary (Some [''dividendYield'' \<mapsto> PFloat (to_double (211 / 20000))])
          = Inr (Some sm)
      \<and> map_of sm ''dividend_yield'' = Some (PStr ''1.05''))
   \<and> (\<exists>sm. get_financial_summary (Some [''dividendYield'' \<mapsto> PFloat (to_double (123 / 10000))])
          = Inr (Some sm)
      \<and> map_of sm ''dividend_yield'' = Some (PStr ''1.23''))
   \<and> (\<exists>sm. get_financial_summary (Some [''dividendYield'' \<mapsto> PInt 2]) = Inr (Some sm)
      \<and> map_of sm ''dividend_yield'' = Some (PInt 200))"
proof (intro conjI)
  obtain sm where sm: "get_financial_summary (Some [''dividendYield'' \<mapsto> PFloat (Fin 0)])
      = Inr (Some sm)"
    using dividend_only_returns[of "PFloat (Fin 0)"] by auto
  from dividend_yield_zero_not_available[OF sm, of "Fin 0" 0]
  have "map_of sm ''dividend_yield'' = Some (PStr ''N/A'')" by simp
  with sm show "\<exists>sm. get_financial_summary (Some [''dividendYield'' \<mapsto> PFloat (Fin 0)])
      = Inr (Some sm) \<and> map_of sm ''dividend_yield'' = Some (PStr ''N/A'')"
    by blast
next
  let ?f = "Fin (3040830468400559 / 288230376151711744)"
  obtain sm where sm: "get_financial_summary (Some [''dividendYield'' \<mapsto> PFloat ?f])
      = Inr (Some sm)"
    using dividend_only_returns[of "PFloat ?f"] by auto
  from dividend_yield_zero_not_available[OF sm, of ?f 0]
  have "map_of sm ''dividend_yield'' = Some (PStr (fmt2f (round_fl (fmul ?f (Fin 100)))))"
    by simp
  then have "map_of sm ''dividend_yield'' = Some (PStr ''1.05'')"
    by (simp only: product_examples)
  with sm show "\<exists>sm. get_financial_summary
        (Some [''dividendYield'' \<mapsto> PFloat (to_double (211 / 20000))]) = Inr (Some sm)
      \<and> map_of sm ''dividend_yield'' = Some (PStr ''1.05'')"
    by (simp only: literal_examples) blast
next
  let ?f = "Fin (7090467253332109 / 576460752303423488)"
  obtain sm where sm: "get_financial_summary (Some [''dividendYield'' \<mapsto> PFloat ?f])
      = Inr (Some sm)"
    using dividend_only_returns[of "PFloat ?f"] by auto
  from dividend_yield_zero_not_available[OF sm, of ?f 0]
  have "map_of sm ''dividend_yield'' = Some (PStr (fmt2f (round_fl (fmul ?f (Fin 100)))))"
    by simp
  then have "map_of sm ''dividend_yield'' = Some (PStr ''1.23'')"
    by (simp only: product_examples)
  with sm show "\<exists>sm. get_financial_summary
        (Some [''dividendYield'' \<mapsto> PFloat (to_double (123 / 10000))]) = Inr (Some sm)
      \<and> map_of sm ''dividend_yield'' = Some (PStr ''1.23'')"
    by (simp only: literal_examples) blast
next
  obtain sm where sm: "get_financial_summary (Some [''dividendYield'' \<mapsto> PInt 2]) = Inr (Some sm)"
    using dividend_only_returns[of "PInt 2"] by auto
  from dividend_yield_zero_not_available[OF sm, of "Fin 0" 2]
  have "map_of sm ''dividend_yield'' = Some (PInt 200)" by simp
  with sm show "\<exists>sm. get_financial_summary (Some [''dividendYield'' \<mapsto> PInt 2]) = Inr (Some sm)
      \<and> map_of sm ''dividend_yield'' = Some (PInt 200)"
    by blast
qed

section \<open>Properties of the favorites store\<close>

subsection \<open>Adding a favorite twice\<close>

lemma in_user_favorites:
  "x \<in> set (user_favorites st u) \<longleftrightarrow> x \<in> set (stocks st) \<and> (u, stock_id x) \<in> set (favorites st)"
  by (auto simp: user_favorites_def split: if_splits)

lemma list_ex_symbol:
  "list_ex (\<lambda>fav. symbol fav = s) xs \<longleftrightarrow> s \<in> set (map symbol xs)"
  by (auto simp: list_ex_iff)

lemma find_user_Some: "find_user st u = Some usr \<Longrightarrow> usr \<in> set (users st) \<and> user_id usr = u"
  by (auto simp: find_user_def find_Some_iff)

lemma find_stock_Some: "find_stock st s = Some x \<Longrightarrow> x \<in> set (stocks st) \<and> symbol x = s"
  by (auto simp: find_stock_def find_Some_iff)

lemma find_stock_None: "find_stock st s = None \<longleftrightarrow> s \<notin> set (map symbol (stocks st))"
  by (auto simp: find_stock_def find_None_iff)

lemma find_user_None: "find_user st u = None \<longleftrightarrow> u \<notin> set (map user_id (users st))"
  by (auto simp: find_user_def find_None_iff)

lemma symbol_inj:
  assumes "distinct (map symbol xs)" "x \<in> set xs" "y \<in> set xs" "symbol x = symbol y"
  shows "x = y"
  using assms by (meson distinct_map inj_onD)

lemma stock_id_inj:
  assumes "distinct (map stock_id xs)" "x \<in> set xs" "y \<in> set xs" "stock_id x = stock_id y"
  shows "x = y"
  using assms by (meson distinct_map inj_onD)

lemma distinct_join_symbols:
  assumes "distinct (map symbol xs)" "distinct (map stock_id xs)" "distinct fs"
  shows "distinct (map symbol (concat (map (\<lambda>(u', k).
           if u' = u then filter (\<lambda>x. stock_id x = k) xs else []) fs)))"
  using assms(3)
proof (induction fs)
  case Nil
  then show ?case by simp
next
  case (Cons r fs)
  obtain u' k where r: "r = (u', k)" by (cases r)
  have d: "distinct (map symbol (filter (\<lambda>x. stock_id x = k) xs))"
    using assms(1) by (simp add: distinct_map_filter)
  have disj: "symbol x \<noteq> symbol y"
    if "u' = u" "x \<in> set xs" "stock_id x = k" "y \<in> set xs" "(u, stock_id y) \<in> set fs" for x y
  proof
    assume "symbol x = symbol y"
    then have "x = y" using symbol_inj[OF assms(1)] that by blast
    then have "(u', k) \<in> set fs" using that by simp
    then show False using Cons.prems r by simp
  qed
  show ?case using Cons d r disj
    by (auto split: if_splits)
qed

lemma distinct_user_favorites_symbols:
  "wf_store st \<Longrightarrow> distinct (map symbol (user_favorites st u))"
  unfolding user_favorites_def wf_store_def by (intro distinct_join_symbols) simp_all

lemma count_list_distinct: "distinct xs \<Longrightarrow> x \<in> set xs \<Longrightarrow> count_list xs x = 1"
  by (induction xs) (auto simp: count_notin)

lemma le_fold_max: "a \<le> fold max ids (a::nat)"
  by (induction ids arbitrary: a) (auto intro: order_trans[OF max.cobounded2])

lemma mem_le_fold_max: "x \<in> set ids \<Longrightarrow> x \<le> fold max ids (a::nat)"
proof (induction ids arbitrary: a)
  case Nil
  then show ?case by simp
next
  case (Cons y ys)
  show ?case
  proof (cases "x = y")
    case True
    have "max y a \<le> fold max ys (max y a)" by (rule le_fold_max)
    then show ?thesis using True by simp
  next
    case False
    then show ?thesis using Cons by simp
  qed
qed

lemma next_id_fresh: "next_id ids \<notin> set ids"
  using mem_le_fold_max[of "next_id ids" ids 0] by (auto simp: next_id_def)

lemma add_already:
  assumes "s \<in> set (map symbol (get_user_favorites st u))"
  shows "add_favorite_stock commit st u s nm = (st, False, s @ '' is already in your favorites.'')"
proof (cases "find_user st u")
  case None
  then show ?thesis using assms by (simp add: get_user_favorites_def)
next
  case (Some usr)
  then have "list_ex (\<lambda>fav. symbol fav = s) (user_favorites st u)"
    using assms by (simp add: get_user_favorites_def list_ex_symbol)
  then show ?thesis using Some by (simp add: add_favorite_stock_def Let_def)
qed

lemma favorites_once:
  assumes "wf_store st" "s \<in> set (map symbol (get_user_favorites st u))"
  shows "count_list (map symbol (get_user_favorites st u)) s = 1"
proof (cases "find_user st u")
  case None
  then show ?thesis using assms by (simp add: get_user_favorites_def)
next
  case (Some usr)
  then have "get_user_favorites st u = user_favorites st u"
    by (simp add: get_user_favorites_def)
  then show ?thesis
    using assms distinct_user_favorites_symbols[OF assms(1), of u]
    by (simp add: count_list_distinct)
qed

lemma add_success:
  assumes wf: "wf_store st" and ok: "add_favorite_stock commit st u s nm = (st', True, m)"
  shows "wf_store st' \<and> s \<in> set (map symbol (get_user_favorites st' u))
         \<and> users st' = users st"
proof -
  obtain usr where usr: "find_user st u = Some usr"
    using ok by (cases "find_user st u") (simp_all add: add_favorite_stock_def)
  have notyet: "\<not> list_ex (\<lambda>fav. symbol fav = s) (user_favorites st u)"
    using ok usr by (auto simp: add_favorite_stock_def Let_def split: if_splits)
  have c: "commit = None"
    using ok usr notyet by (auto simp: add_favorite_stock_def Let_def split: option.splits)
  have uin: "u \<in> set (map user_id (users st))"
    using find_user_Some[OF usr] by auto
  show ?thesis
  proof (cases "find_stock st s")
    case None
    define k where "k = next_id (map stock_id (stocks st))"
    define stk where "stk = \<lparr>stock_id = k, symbol = s, name = nm\<rparr>"
    have st': "st' = st\<lparr>stocks := stocks st @ [stk], favorites := favorites st @ [(u, k)]\<rparr>"
      using ok usr notyet c None by (simp add: add_favorite_stock_def Let_def stk_def k_def)
    have kf: "k \<notin> set (map stock_id (stocks st))" unfolding k_def by (rule next_id_fresh)
    have sf: "s \<notin> set (map symbol (stocks st))" using None by (simp add: find_stock_None)
    have nf: "(u, k) \<notin> set (favorites st)"
    proof
      assume "(u, k) \<in> set (favorites st)"
      then have "k \<in> snd ` set (favorites st)" by force
      then show False using wf kf by (auto simp: wf_store_def)
    qed
    have w: "wf_store st'"
      using wf kf sf nf uin unfolding st' wf_store_def stk_def by auto
    have "stk \<in> set (user_favorites st' u)"
      unfolding in_user_favorites st' by (simp add: stk_def)
    then have "s \<in> set (map symbol (user_favorites st' u))"
      by (force simp: stk_def)
    moreover have "find_user st' u = Some usr" using usr by (simp add: find_user_def st')
    ultimately show ?thesis using w by (simp add: get_user_favorites_def st')
  next
    case (Some stk)
    have st': "st' = st\<lparr>stocks := stocks st, favorites := favorites st @ [(u, stock_id stk)]\<rparr>"
      using ok usr notyet c Some by (simp add: add_favorite_stock_def Let_def)
    have sin: "stk \<in> set (stocks st)" "symbol stk = s" using find_stock_Some[OF Some] by auto
    have nf: "(u, stock_id stk) \<notin> set (favorites st)"
    proof
      assume "(u, stock_id stk) \<in> set (favorites st)"
      then have "stk \<in> set (user_favorites st u)" using sin by (simp add: in_user_favorites)
      then show False using notyet sin by (auto simp: list_ex_iff)
    qed
    have w: "wf_store st'"
      using wf nf uin sin unfolding st' wf_store_def by auto
    have "stk \<in> set (user_favorites st' u)"
      unfolding in_user_favorites st' using sin by simp
    then have "s \<in> set (map symbol (user_favorites st' u))"
      using sin by force
    moreover have "find_user st' u = Some usr" using usr by (simp add: find_user_def st')
    ultimately show ?thesis using w by (simp add: get_user_favorites_def st')
  qed
qed

text \<open>Every outcome of adding a favorite leaves the store well-formed.\<close>

lemma add_keeps_wf:
  assumes "wf_store st"
  shows "wf_store (fst (add_favorite_stock commit st u s nm))"
proof (cases "add_favorite_stock commit st u s nm")
  case (fields st' ok m)
  show ?thesis
  proof (cases ok)
    case True
    with fields add_success[OF assms, of commit u s nm st' m] show ?thesis by simp
  next
    case False
    with fields have "st' = st"
      by (auto simp: add_favorite_stock_def Let_def split: option.splits if_splits)
    with fields assms show ?thesis by simp
  qed
qed

lemma wf_one_user_store: "wf_store one_user_store"
  by (simp add: wf_store_def one_user_store_def)

lemma first_add:
  "add_favorite_stock None one_user_store 1 ''AAPL'' (Some ''Apple Inc.'')
   = (aapl_store, True, ''AAPL added to favorites.'')"
  by (simp add: add_favorite_stock_def one_user_store_def aapl_store_def find_user_def
      find_stock_def user_favorites_def next_id_def Let_def)

text \<open>
  Claim C8. In a well-formed store, when the user already has the symbol among the
  favorites, adding it again fails with the message that it is already in the favorites and
  returns the store unchanged, and the user's favorites hold the symbol exactly once. In
  particular this is so for the store that a successful first \<open>add_favorite_stock\<close> of the
  same user and symbol returned.
\<close>

theorem add_favorite_twice_rejected:
  assumes "wf_store st"
  shows "(s \<in> set (map symbol (get_user_favorites st u)) \<longrightarrow>
            add_favorite_stock commit st u s nm
              = (st, False, s @ '' is already in your favorites.'')
            \<and> count_list (map symbol (get_user_favorites st u)) s = 1)
       \<and> (add_favorite_stock commit1 st u s nm = (st', True, m) \<longrightarrow>
            add_favorite_stock commit st' u s nm'
              = (st', False, s @ '' is already in your favorites.'')
            \<and> count_list (map symbol (get_user_favorites st' u)) s = 1)"
proof (intro conjI impI)
  assume a: "s \<in> set (map symbol (get_user_favorites st u))"
  show "add_favorite_stock commit st u s nm = (st, False, s @ '' is already in your favorites.'')"
    using a by (rule add_already)
  show "count_list (map symbol (get_user_favorites st u)) s = 1"
    using assms a by (rule favorites_once)
next
  assume ok: "add_favorite_stock commit1 st u s nm = (st', True, m)"
  from add_success[OF assms ok]
  have w: "wf_store st'" and a: "s \<in> set (map symbol (get_user_favorites st' u))" by simp_all
  show "add_favorite_stock commit st' u s nm'
      = (st', False, s @ '' is already in your favorites.'')"
    using a by (rule add_already)
  show "count_list (map symbol (get_user_favorites st' u)) s = 1"
    using w a by (rule favorites_once)
qed

theorem add_favorite_twice_rejected_witness:
  "add_favorite_stock None one_user_store 1 ''AAPL'' (Some ''Apple Inc.'')
     = (aapl_store, True, ''AAPL added to favorites.'')
   \<and> add_favorite_stock None aapl_store 1 ''AAPL'' None
     = (aapl_store, False, ''AAPL is already in your favorites.'')
   \<and> count_list (map symbol (get_user_favorites aapl_store 1)) ''AAPL'' = 1"
  using add_favorite_twice_rejected[OF wf_one_user_store, of "''AAPL''" 1 None
      "Some ''Apple Inc.''" None aapl_store "''AAPL added to favorites.''" None]
    first_add
  by simp

subsection \<open>Removing a favorite\<close>

lemma remove_not_favorite:
  assumes "s \<notin> set (map symbol (get_user_favorites st u))"
  shows "remove_favorite_stock commit st u s =
     Inr (st, False,
          if find_user st u = None then ''User not found.''
          else if find_stock st s = None then ''Stock '' @ s @ '' not found.''
          else s @ '' is not in your favorites.'')"
proof (cases "find_user st u")
  case None
  then show ?thesis by (simp add: remove_favorite_stock_def)
next
  case (Some usr)
  then have "\<not> list_ex (\<lambda>fav. symbol fav = s) (user_favorites st u)"
    using assms by (simp add: get_user_favorites_def list_ex_symbol)
  then show ?thesis using Some
    by (cases "find_stock st s") (simp_all add: remove_favorite_stock_def)
qed

lemma set_remove1_distinct: "distinct xs \<Longrightarrow> set (remove1 x xs) = set xs - {x}"
  by simp

lemma favorite_stock_found:
  assumes wf: "wf_store st" and fav: "s \<in> set (map symbol (get_user_favorites st u))"
  shows "\<exists>usr stk. find_user st u = Some usr \<and> find_stock st s = Some stk
     \<and> stk \<in> set (user_favorites st u) \<and> (u, stock_id stk) \<in> set (favorites st)"
proof -
  obtain usr where usr: "find_user st u = Some usr"
    using fav by (cases "find_user st u") (simp_all add: get_user_favorites_def)
  then have "s \<in> set (map symbol (user_favorites st u))"
    using fav by (simp add: get_user_favorites_def)
  then obtain x where x: "x \<in> set (user_favorites st u)" "symbol x = s" by auto
  then have xin: "x \<in> set (stocks st)" "(u, stock_id x) \<in> set (favorites st)"
    by (simp_all add: in_user_favorites)
  then have "s \<in> set (map symbol (stocks st))" using x by force
  then obtain stk where stk: "find_stock st s = Some stk"
    using find_stock_None[of st s] by (cases "find_stock st s") simp_all
  have "stk = x"
    using symbol_inj[of "stocks st" stk x] wf find_stock_Some[OF stk] xin x
    by (simp add: wf_store_def)
  then show ?thesis using usr stk x xin by simp
qed

lemma remove_favorite:
  assumes wf: "wf_store st" and fav: "s \<in> set (map symbol (get_user_favorites st u))"
  shows "\<exists>stk. find_stock st s = Some stk \<and> (u, stock_id stk) \<in> set (favorites st)
     \<and> remove_favorite_stock None st u s
         = Inr (st\<lparr>favorites := remove1 (u, stock_id stk) (favorites st)\<rparr>, True,
                s @ '' removed from favorites.'')
     \<and> remove_favorite_stock (Some e) st u s = Inr (st, False, ''An error occurred: '' @ e)
     \<and> set (remove1 (u, stock_id stk) (favorites st)) = set (favorites st) - {(u, stock_id stk)}
     \<and> s \<notin> set (map symbol (get_user_favorites
                (st\<lparr>favorites := remove1 (u, stock_id stk) (favorites st)\<rparr>) u))"
proof -
  from favorite_stock_found[OF wf fav] obtain usr stk where
    usr: "find_user st u = Some usr" and stk: "find_stock st s = Some stk"
    and sin: "stk \<in> set (user_favorites st u)" and row: "(u, stock_id stk) \<in> set (favorites st)"
    by blast
  have ex: "list_ex (\<lambda>fav. symbol fav = s) (user_favorites st u)"
    using fav usr by (simp add: get_user_favorites_def list_ex_symbol)
  let ?st' = "st\<lparr>favorites := remove1 (u, stock_id stk) (favorites st)\<rparr>"
  have r1: "remove_favorite_stock None st u s = Inr (?st', True, s @ '' removed from favorites.'')"
    using usr stk sin ex by (simp add: remove_favorite_stock_def)
  have r2: "remove_favorite_stock (Some e) st u s = Inr (st, False, ''An error occurred: '' @ e)"
    using usr stk sin ex by (simp add: remove_favorite_stock_def)
  have d: "distinct (favorites st)" using wf by (simp add: wf_store_def)
  have s1: "set (remove1 (u, stock_id stk) (favorites st)) = set (favorites st) - {(u, stock_id stk)}"
    using d by simp
  have gone: "s \<notin> set (map symbol (get_user_favorites ?st' u))"
  proof
    assume "s \<in> set (map symbol (get_user_favorites ?st' u))"
    then have "s \<in> set (map symbol (user_favorites ?st' u))"
      by (cases "find_user ?st' u") (simp_all add: get_user_favorites_def)
    then obtain x where x: "x \<in> set (user_favorites ?st' u)" "symbol x = s" by auto
    then have xin: "x \<in> set (stocks st)" and xrow: "(u, stock_id x) \<in> set (favorites ?st')"
      by (simp_all add: in_user_favorites)
    have "x = stk"
      using symbol_inj[of "stocks st" x stk] wf find_stock_Some[OF stk] xin x
      by (simp add: wf_store_def)
    then show False using xrow s1 by simp
  qed
  from stk row r1 r2 s1 gone show ?thesis by blast
qed

lemma remove_keeps_rows:
  assumes "remove_favorite_stock commit st u s = Inr r"
  shows "stocks (fst r) = stocks st \<and> users (fst r) = users st"
  using assms
  by (auto simp: remove_favorite_stock_def split: option.splits if_splits)

lemma remove_returns:
  assumes wf: "wf_store st"
  shows "\<exists>r. remove_favorite_stock commit st u s = Inr r"
proof (cases "s \<in> set (map symbol (get_user_favorites st u))")
  case True
  show ?thesis
  proof (cases commit)
    case None
    from remove_favorite[OF wf True, of "[]"] show ?thesis unfolding None by blast
  next
    case (Some e)
    from remove_favorite[OF wf True, of e] show ?thesis unfolding Some by blast
  qed
next
  case False
  from remove_not_favorite[OF False, of commit] show ?thesis by blast
qed

text \<open>Every outcome of removing a favorite leaves the store well-formed.\<close>

lemma remove_keeps_wf:
  assumes "wf_store st" "remove_favorite_stock commit st u s = Inr r"
  shows "wf_store (fst r)"
proof -
  have "fst r = st \<or> (\<exists>k. fst r = st\<lparr>favorites := remove1 (u, k) (favorites st)\<rparr>)"
    using assms(2)
    by (auto simp: remove_favorite_stock_def split: option.splits if_splits)
  moreover have "wf_store (st\<lparr>favorites := remove1 (u, k) (favorites st)\<rparr>)" for k
    using assms(1) set_remove1_subset[of "(u, k)" "favorites st"]
    by (auto simp: wf_store_def)
  ultimately show ?thesis using assms(1) by auto
qed

text \<open>
  Claim C9, as the code has it. In a well-formed store, removing a symbol that is not among
  the user's favorites fails and returns the store unchanged; the message is "User not
  found." when the user does not exist, "Stock s not found." when no stock row has the
  symbol, and "s is not in your favorites." otherwise. Removing a symbol that is among the
  favorites, with a commit that succeeds, deletes exactly the row of the association table for
  the user and that stock, after which the symbol is no longer among the user's favorites.
  Whatever the outcome, the operation returns and the stock rows and user rows are those of
  before.
\<close>

theorem remove_favorite_outcomes:
  assumes "wf_store st"
  shows "(s \<notin> set (map symbol (get_user_favorites st u)) \<longrightarrow>
            remove_favorite_stock commit st u s =
              Inr (st, False,
                   if find_user st u = None then ''User not found.''
                   else if find_stock st s = None then ''Stock '' @ s @ '' not found.''
                   else s @ '' is not in your favorites.''))
       \<and> (s \<in> set (map symbol (get_user_favorites st u)) \<longrightarrow>
            (\<exists>stk. find_stock st s = Some stk \<and> (u, stock_id stk) \<in> set (favorites st)
               \<and> remove_favorite_stock None st u s
                   = Inr (st\<lparr>favorites := remove1 (u, stock_id stk) (favorites st)\<rparr>, True,
                          s @ '' removed from favorites.'')
               \<and> set (remove1 (u, stock_id stk) (favorites st))
                   = set (favorites st) - {(u, stock_id stk)}
               \<and> s \<notin> set (map symbol (get_user_favorites
                          (st\<lparr>favorites := remove1 (u, stock_id stk) (favorites st)\<rparr>) u))))
       \<and> (\<exists>r. remove_favorite_stock commit st u s = Inr r
               \<and> stocks (fst r) = stocks st \<and> users (fst r) = users st)"
proof (intro conjI impI)
  assume "s \<notin> set (map symbol (get_user_favorites st u))"
  then show "remove_favorite_stock commit st u s =
              Inr (st, False,
                   if find_user st u = None then ''User not found.''
                   else if find_stock st s = None then ''Stock '' @ s @ '' not found.''
                   else s @ '' is not in your favorites.'')"
    by (rule remove_not_favorite)
next
  assume "s \<in> set (map symbol (get_user_favorites st u))"
  from remove_favorite[OF assms this, of "[]"]
  show "\<exists>stk. find_stock st s = Some stk \<and> (u, stock_id stk) \<in> set (favorites st)
               \<and> remove_favorite_stock None st u s
                   = Inr (st\<lparr>favorites := remove1 (u, stock_id stk) (favorites st)\<rparr>, True,
                          s @ '' removed from favorites.'')
               \<and> set (remove1 (u, stock_id stk) (favorites st))
                   = set (favorites st) - {(u, stock_id stk)}
               \<and> s \<notin> set (map symbol (get_user_favorites
                          (st\<lparr>favorites := remove1 (u, stock_id stk) (favorites st)\<rparr>) u))"
    by blast
next
  from remove_returns[OF assms, of commit u s] obtain r where
    r: "remove_favorite_stock commit st u s = Inr r" by blast
  from remove_keeps_rows[OF r] r
  show "\<exists>r. remove_favorite_stock commit st u s = Inr r
               \<and> stocks (fst r) = stocks st \<and> users (fst r) = users st"
    by blast
qed

lemma wf_aapl_store: "wf_store aapl_store"
  by (simp add: wf_store_def aapl_store_def one_user_store_def)

lemma aapl_favorites: "map symbol (get_user_favorites aapl_store 1) = [''AAPL'']"
  by (simp add: get_user_favorites_def find_user_def user_favorites_def aapl_store_def
      one_user_store_def)

theorem remove_favorite_outcomes_witness:
  "remove_favorite_stock None aapl_store 1 ''AAPL''
     = Inr (aapl_store\<lparr>favorites := []\<rparr>, True, ''AAPL removed from favorites.'')
   \<and> stocks (aapl_store\<lparr>favorites := []\<rparr>) = stocks aapl_store
   \<and> remove_favorite_stock None aapl_store 1 ''MSFT''
     = Inr (aapl_store, False, ''Stock MSFT not found.'')
   \<and> remove_favorite_stock None aapl_store 2 ''AAPL''
     = Inr (aapl_store, False, ''User not found.'')"
proof -
  have fs: "find_stock aapl_store ''AAPL''
      = Some \<lparr>stock_id = 1, symbol = ''AAPL'', name = Some ''Apple Inc.''\<rparr>"
    "find_stock aapl_store ''MSFT'' = None"
    by (simp_all add: find_stock_def aapl_store_def)
  have fu: "find_user aapl_store 2 = None" "find_user aapl_store 1 \<noteq> None"
    by (simp_all add: find_user_def aapl_store_def one_user_store_def)
  have g2: "get_user_favorites aapl_store 2 = []"
    by (simp add: get_user_favorites_def fu)
  have fv: "favorites aapl_store = [(1, 1)]" by (simp add: aapl_store_def)
  have m: "''AAPL'' \<in> set (map symbol (get_user_favorites aapl_store 1))"
    by (simp only: aapl_favorites) simp
  from remove_favorite_outcomes[OF wf_aapl_store, of "''AAPL''" 1 None] m
  obtain stk where stk: "find_stock aapl_store ''AAPL'' = Some stk"
    and r: "remove_favorite_stock None aapl_store 1 ''AAPL''
      = Inr (aapl_store\<lparr>favorites := remove1 (1, stock_id stk) (favorites aapl_store)\<rparr>, True,
             ''AAPL'' @ '' removed from favorites.'')"
    by blast
  have "stk = \<lparr>stock_id = 1, symbol = ''AAPL'', name = Some ''Apple Inc.''\<rparr>"
    using stk fs(1) by simp
  then have "stock_id stk = 1" by simp
  then have a: "remove_favorite_stock None aapl_store 1 ''AAPL''
     = Inr (aapl_store\<lparr>favorites := []\<rparr>, True, ''AAPL removed from favorites.'')"
    using r fv by simp
  have b: "remove_favorite_stock None aapl_store 1 ''MSFT''
     = Inr (aapl_store, False, ''Stock MSFT not found.'')"
    using remove_favorite_outcomes[OF wf_aapl_store, of "''MSFT''" 1 None] fs fu
    by (simp add: aapl_favorites)
  have c: "remove_favorite_stock None aapl_store 2 ''AAPL''
     = Inr (aapl_store, False, ''User not found.'')"
    using remove_favorite_outcomes[OF wf_aapl_store, of "''AAPL''" 2 None] fu g2
    by simp
  from a b c show ?thesis by simp
qed

text \<open>
  For a registered user and a symbol that no stock row has, the failure is "Stock MSFT not
  found.", not the not-in-your-favorites failure the claim names.
\<close>

theorem remove_unseen_stock_counterexample:
  "''MSFT'' \<notin> set (map symbol (get_user_favorites one_user_store 1))
   \<and> remove_favorite_stock None one_user_store 1 ''MSFT''
       = Inr (one_user_store, False, ''Stock MSFT not found.'')
   \<and> remove_favorite_stock None one_user_store 1 ''MSFT''
       \<noteq> Inr (one_user_store, False, ''MSFT is not in your favorites.'')"
  by (simp add: remove_favorite_stock_def get_user_favorites_def find_user_def find_stock_def
      user_favorites_def one_user_store_def)

end
